theory Spec2Isabelle
  imports Main
begin

section \<open>C strings and the sscanf call of ocl_device.cpp\<close>

text \<open>
  The device wrapper reads its strings through C interfaces: \<open>std::string::c_str\<close>,
  \<open>std::strlen\<close>, \<open>std::sscanf\<close>. All of them stop at the first zero byte.
\<close>

definition NUL :: char where
  "NUL = CHR 0x00"

definition c_str :: "string \<Rightarrow> string" where
  \<comment> \<open>the characters a C function sees in a char buffer: those before the first zero byte\<close>
  "c_str buf = takeWhile (\<lambda>c. c \<noteq> NUL) buf"

definition isspace :: "char \<Rightarrow> bool" where
  \<comment> \<open>isspace of the C locale: space, tab, line feed, vertical tab, form feed, carriage
      return\<close>
  "isspace c = (c = CHR '' '' \<or> c = CHR 0x09 \<or> c = CHR 0x0A \<or> c = CHR 0x0B
                \<or> c = CHR 0x0C \<or> c = CHR 0x0D)"

definition digit_val :: "char \<Rightarrow> nat option" where
  \<comment> \<open>the value of a character as a digit of strtol: 0-9, a-f, A-F\<close>
  "digit_val c =
     (let n = (of_char c :: nat)
      in if 48 \<le> n \<and> n \<le> 57 then Some (n - 48)
         else if 97 \<le> n \<and> n \<le> 102 then Some (n - 87)
         else if 65 \<le> n \<and> n \<le> 70 then Some (n - 55)
         else None)"

definition is_digit :: "nat \<Rightarrow> char \<Rightarrow> bool" where
  "is_digit base c = (case digit_val c of Some v \<Rightarrow> v < base | None \<Rightarrow> False)"

definition digits_value :: "nat \<Rightarrow> string \<Rightarrow> nat" where
  "digits_value base ds =
     foldl (\<lambda>acc c. acc * base + (case digit_val c of Some v \<Rightarrow> v | None \<Rightarrow> 0)) 0 ds"

definition to_int :: "int \<Rightarrow> int" where
  \<comment> \<open>what \<open>%i\<close> stores into a C int for the numeral's value v. Where v does not fit an int,
      ISO C leaves the call undefined; the model follows the GNU C library on an LP64
      target: strtol saturates at LONG_MAX and LONG_MIN, and the long is then truncated
      to the 32 bits of the int (two's complement).\<close>
  "to_int v =
     (let l = max (- (2 ^ 63)) (min (2 ^ 63 - 1) v)
      in (l + 2 ^ 31) mod 2 ^ 32 - 2 ^ 31)"

definition scan_i :: "string \<Rightarrow> (int \<times> string) option" where
  \<comment> \<open>the conversion \<open>%i\<close>: white space is skipped, then an optionally signed integer in
      the syntax of strtol with base 0 (0x: hexadecimal, leading 0: octal, else decimal).
      None is a matching failure; otherwise the value and the rest of the input. For 0x
      with no hexadecimal digit after it, where ISO C 7.21.6.2 has a matching failure,
      the model follows the GNU C library: the value is 0 and the x is consumed.\<close>
  "scan_i inp =
     (let s0 = dropWhile isspace inp;
          neg = (case s0 of c # _ \<Rightarrow> c = CHR ''-'' | [] \<Rightarrow> False);
          s1 = (case s0 of c # r \<Rightarrow> if c = CHR ''-'' \<or> c = CHR ''+'' then r else s0
                | [] \<Rightarrow> s0);
          hex = (case s1 of c # d # _ \<Rightarrow> c = CHR ''0'' \<and> (d = CHR ''x'' \<or> d = CHR ''X'')
                 | _ \<Rightarrow> False);
          oct = (case s1 of c # _ \<Rightarrow> c = CHR ''0'' | [] \<Rightarrow> False);
          base = (if hex then 16 else if oct then 8 else 10);
          s2 = (if hex then drop 2 s1 else s1);
          ds = takeWhile (is_digit base) s2;
          v = int (digits_value base ds)
      in if ds = [] \<and> \<not> hex then None
         else Some (to_int (if neg then - v else v), drop (length ds) s2))"

definition sscanf_OpenCL_i_i :: "string \<Rightarrow> int \<times> int \<Rightarrow> int \<times> int" where
  \<comment> \<open>\<open>std::sscanf(buf, "OpenCL %i.%i", &a, &b)\<close>: the pair holds a and b before the call,
      the result holds them after it. The scan stops at the first directive that fails
      and leaves the remaining variables as they were.\<close>
  "sscanf_OpenCL_i_i buf ab =
     (let s = c_str buf
      in if take 6 s \<noteq> ''OpenCL'' then ab
         else (case scan_i (dropWhile isspace (drop 6 s)) of
                 None \<Rightarrow> ab
               | Some (a, r) \<Rightarrow>
                   (case r of
                      [] \<Rightarrow> (a, snd ab)
                    | c # r' \<Rightarrow>
                        if c \<noteq> CHR ''.'' then (a, snd ab)
                        else (case scan_i r' of
                                None \<Rightarrow> (a, snd ab)
                              | Some (b, _) \<Rightarrow> (a, b)))))"

definition supportsVersion_str :: "string \<Rightarrow> int \<Rightarrow> int \<Rightarrow> bool" where
  \<comment> \<open>ocl::Device::supportsVersion, lines 55-59, once \<open>version()\<close> has returned v\<close>
  "supportsVersion_str v major minor =
     (case sscanf_OpenCL_i_i v (0, 0) of
        (mjr, mnr) \<Rightarrow> mjr > major \<or> (mjr = major \<and> mnr \<ge> minor))"

definition supportsAtLeast1Point2_str :: "string \<Rightarrow> bool" where
  \<comment> \<open>supportsAtLeast1Point2, lines 70-74, on the content of the buffer \<open>version\<close>\<close>
  "supportsAtLeast1Point2_str version =
     (case sscanf_OpenCL_i_i version (0, 0) of
        (major, minor) \<Rightarrow> major > 1 \<or> (major = 1 \<and> minor > 1))"


section \<open>The native API as the wrapper sees it\<close>

text \<open>
  Device and platform identifiers are opaque pointers; 0 is the null pointer. The native
  runtime is a record of what it answers; every native call the wrapper issues is logged,
  with the identifier, the key, the buffer size passed and whether a buffer was passed.
  Buffer sizes are those of an LP64 target (\<open>sizeof(cl_uint) = 4\<close>, \<open>sizeof(size_t) = 8\<close>).
\<close>

type_synonym cl_device_id = nat
type_synonym cl_platform_id = nat
type_synonym cl_int = int

definition CL_SUCCESS :: cl_int where
  "CL_SUCCESS = 0"

definition CL_OUT_OF_RESOURCES :: cl_int where
  "CL_OUT_OF_RESOURCES = - 5"

definition CL_INVALID_VALUE :: cl_int where
  "CL_INVALID_VALUE = - 30"

definition CL_INVALID_DEVICE :: cl_int where
  "CL_INVALID_DEVICE = - 33"

datatype cl_device_info =
    CL_DEVICE_TYPE
  | CL_DEVICE_MAX_COMPUTE_UNITS
  | CL_DEVICE_MAX_WORK_ITEM_DIMENSIONS
  | CL_DEVICE_MAX_WORK_ITEM_SIZES
  | CL_DEVICE_MAX_WORK_GROUP_SIZE
  | CL_DEVICE_MAX_CONSTANT_BUFFER_SIZE
  | CL_DEVICE_MAX_MEM_ALLOC_SIZE
  | CL_DEVICE_GLOBAL_MEM_SIZE
  | CL_DEVICE_LOCAL_MEM_SIZE
  | CL_DEVICE_PLATFORM
  | CL_DEVICE_VERSION
  | CL_DEVICE_NAME
  | CL_DEVICE_VENDOR
  | CL_DEVICE_EXTENSIONS
  | CL_DEVICE_IMAGE_SUPPORT

datatype native_call =
    clGetDeviceInfo cl_device_id cl_device_info nat bool
      \<comment> \<open>device, key, param_value_size, whether param_value is a buffer (not NULL)\<close>
  | clGetPlatformInfo cl_platform_id nat
      \<comment> \<open>platform, param_value_size; the key is always CL_PLATFORM_VERSION\<close>
  | clRetainDevice cl_device_id
  | clReleaseDevice cl_device_id

record native =
  status :: "native_call \<Rightarrow> cl_int"
  device_value :: "cl_device_id \<Rightarrow> cl_device_info \<Rightarrow> nat"
  device_sizes :: "cl_device_id \<Rightarrow> nat list"
  device_string :: "cl_device_id \<Rightarrow> cl_device_info \<Rightarrow> string"
  platform_version :: "cl_platform_id \<Rightarrow> string"

datatype error =
    NativeApiError cl_int
  | runtime_error string
  | UninitializedRead
  | OutOfBoundsRead nat

text \<open>
  A call of the wrapper yields its result, or the exception it throws, and the native
  calls it has issued, in order. \<open>UninitializedRead\<close> and \<open>OutOfBoundsRead\<close> are not
  exceptions: they mark the places where the C++ reads memory it must not read, with the
  index of the read.
\<close>

type_synonym 'a io = "(error + 'a) \<times> native_call list"

definition return_io :: "'a \<Rightarrow> 'a io" where
  "return_io x = (Inr x, [])"

definition throw_io :: "error \<Rightarrow> 'a io" where
  "throw_io e = (Inl e, [])"

definition bind_io :: "'a io \<Rightarrow> ('a \<Rightarrow> 'b io) \<Rightarrow> 'b io" where
  "bind_io m f =
     (case m of
        (Inl e, t) \<Rightarrow> (Inl e, t)
      | (Inr x, t) \<Rightarrow> (case f x of (r, t') \<Rightarrow> (r, t @ t')))"

definition OPENCL_SAFE_CALL :: "native \<Rightarrow> native_call \<Rightarrow> unit io" where
  \<comment> \<open>Modelled from the spec: the macro OPENCL_SAFE_CALL comes from ocl_query.h, which is
      not among the sources. The spec describes it as SafeCall: it issues the call and
      throws NativeApiError if the status is not success.\<close>
  "OPENCL_SAFE_CALL env c =
     (if status env c = CL_SUCCESS then Inr () else Inl (NativeApiError (status env c)), [c])"

section \<open>ocl::Device\<close>

text \<open>
  Modelled from the spec: the class \<open>ocl::DeviceType\<close> is declared in a header that is not
  among the sources. The spec lists its values as CPU, GPU, ACCELERATOR and ALL; this
  file names \<open>ocl::device_type::ALL\<close> and compares a type with the native constants
  for GPU, CPU and accelerator. (\<open>ALL\<close> alone is taken by the syntax of HOL.)
\<close>

datatype device_type = type_CPU | type_GPU | type_ACCELERATOR | type_ALL

record Device =
  dev_id :: cl_device_id
  dev_type :: device_type

definition Device_of :: "(nat \<Rightarrow> device_type) \<Rightarrow> native \<Rightarrow> cl_device_id \<Rightarrow> Device io" where
  \<comment> \<open>\<open>Device(cl_device_id dev)\<close>; \<open>ocl::DeviceType::type\<close> is declared in a header that is
      not among the sources and is taken as the parameter \<open>classify\<close>\<close>
  "Device_of classify env dev =
     bind_io (OPENCL_SAFE_CALL env (clGetDeviceInfo dev CL_DEVICE_TYPE 8 True))
       (\<lambda>_. return_io \<lparr>dev_id = dev, dev_type = classify (device_value env dev CL_DEVICE_TYPE)\<rparr>)"

definition Device_default :: Device where
  \<comment> \<open>\<open>Device()\<close>\<close>
  "Device_default = \<lparr>dev_id = 0, dev_type = type_ALL\<rparr>"

definition setId :: "Device \<Rightarrow> cl_device_id \<Rightarrow> unit io \<times> Device" where
  \<comment> \<open>a mutating member returns what the call yields and the object after it\<close>
  "setId this i = (return_io (), this\<lparr>dev_id := i\<rparr>)"

definition id_of :: "Device \<Rightarrow> cl_device_id" where
  \<comment> \<open>\<open>Device::id()\<close>\<close>
  "id_of this = dev_id this"

definition type_of :: "Device \<Rightarrow> device_type" where
  \<comment> \<open>\<open>Device::type()\<close>\<close>
  "type_of this = dev_type this"

definition eq_Device :: "Device \<Rightarrow> Device \<Rightarrow> bool" where
  \<comment> \<open>\<open>operator == (const Device & dev)\<close>\<close>
  "eq_Device this dev = (id_of dev = id_of this)"

definition ne_Device :: "Device \<Rightarrow> Device \<Rightarrow> bool" where
  \<comment> \<open>\<open>operator != (const Device & dev)\<close>\<close>
  "ne_Device this dev = (id_of dev \<noteq> id_of this)"

definition eq_id :: "Device \<Rightarrow> cl_device_id \<Rightarrow> bool" where
  \<comment> \<open>\<open>operator == (cl_device_id dev)\<close>\<close>
  "eq_id this dev = (dev = id_of this)"

definition ne_id :: "Device \<Rightarrow> cl_device_id \<Rightarrow> bool" where
  \<comment> \<open>\<open>operator != (cl_device_id dev)\<close>\<close>
  "ne_id this dev = (dev \<noteq> id_of this)"

definition eq_type :: "Device \<Rightarrow> device_type \<Rightarrow> bool" where
  \<comment> \<open>\<open>operator == (const ocl::DeviceType& type)\<close>\<close>
  "eq_type this ty = (ty = type_of this)"

subsection \<open>Capability queries\<close>

definition maxComputeUnits :: "native \<Rightarrow> Device \<Rightarrow> nat io" where
  "maxComputeUnits env this =
     bind_io (OPENCL_SAFE_CALL env (clGetDeviceInfo (dev_id this) CL_DEVICE_MAX_COMPUTE_UNITS 4 True))
       (\<lambda>_. return_io (device_value env (dev_id this) CL_DEVICE_MAX_COMPUTE_UNITS))"

definition maxWorkItemDim :: "native \<Rightarrow> Device \<Rightarrow> nat io" where
  "maxWorkItemDim env this =
     bind_io (OPENCL_SAFE_CALL env
                (clGetDeviceInfo (dev_id this) CL_DEVICE_MAX_WORK_ITEM_DIMENSIONS 4 True))
       (\<lambda>_. return_io (device_value env (dev_id this) CL_DEVICE_MAX_WORK_ITEM_DIMENSIONS))"

definition maxWorkItemSizes :: "native \<Rightarrow> Device \<Rightarrow> nat list io" where
  "maxWorkItemSizes env this =
     bind_io (OPENCL_SAFE_CALL env
                (clGetDeviceInfo (id_of this) CL_DEVICE_MAX_WORK_ITEM_SIZES (8 * 3) True))
       (\<lambda>_. return_io (take 3 (device_sizes env (id_of this) @ replicate 3 0)))"

definition maxWorkGroupSize :: "native \<Rightarrow> Device \<Rightarrow> nat io" where
  "maxWorkGroupSize env this =
     bind_io (OPENCL_SAFE_CALL env (clGetDeviceInfo (id_of this) CL_DEVICE_MAX_WORK_GROUP_SIZE 8 True))
       (\<lambda>_. return_io (device_value env (id_of this) CL_DEVICE_MAX_WORK_GROUP_SIZE))"

definition maxConstantBufferSize :: "native \<Rightarrow> Device \<Rightarrow> nat io" where
  "maxConstantBufferSize env this =
     bind_io (OPENCL_SAFE_CALL env
                (clGetDeviceInfo (id_of this) CL_DEVICE_MAX_CONSTANT_BUFFER_SIZE 8 True))
       (\<lambda>_. return_io (device_value env (id_of this) CL_DEVICE_MAX_CONSTANT_BUFFER_SIZE))"

definition maxMemAllocSize :: "native \<Rightarrow> Device \<Rightarrow> nat io" where
  "maxMemAllocSize env this =
     bind_io (OPENCL_SAFE_CALL env (clGetDeviceInfo (dev_id this) CL_DEVICE_MAX_MEM_ALLOC_SIZE 8 True))
       (\<lambda>_. return_io (device_value env (dev_id this) CL_DEVICE_MAX_MEM_ALLOC_SIZE))"

definition globalMemSize :: "native \<Rightarrow> Device \<Rightarrow> nat io" where
  "globalMemSize env this =
     bind_io (OPENCL_SAFE_CALL env (clGetDeviceInfo (dev_id this) CL_DEVICE_GLOBAL_MEM_SIZE 8 True))
       (\<lambda>_. return_io (device_value env (dev_id this) CL_DEVICE_GLOBAL_MEM_SIZE))"

definition localMemSize :: "native \<Rightarrow> Device \<Rightarrow> nat io" where
  "localMemSize env this =
     bind_io (OPENCL_SAFE_CALL env (clGetDeviceInfo (dev_id this) CL_DEVICE_LOCAL_MEM_SIZE 8 True))
       (\<lambda>_. return_io (device_value env (dev_id this) CL_DEVICE_LOCAL_MEM_SIZE))"

definition imageSupport :: "native \<Rightarrow> Device \<Rightarrow> bool io" where
  \<comment> \<open>\<open>support\<close> starts as CL_FALSE (0) and is compared with CL_TRUE (1)\<close>
  "imageSupport env this =
     bind_io (OPENCL_SAFE_CALL env (clGetDeviceInfo (id_of this) CL_DEVICE_IMAGE_SUPPORT 4 True))
       (\<lambda>_. return_io (device_value env (id_of this) CL_DEVICE_IMAGE_SUPPORT = 1))"

definition platform :: "native \<Rightarrow> Device \<Rightarrow> cl_platform_id io" where
  "platform env this =
     bind_io (OPENCL_SAFE_CALL env (clGetDeviceInfo (id_of this) CL_DEVICE_PLATFORM 8 True))
       (\<lambda>_. let pl = device_value env (id_of this) CL_DEVICE_PLATFORM
             in if pl = 0 then throw_io (runtime_error ''platform not found'')
                else return_io pl)"

definition getDeviceInfo :: "native \<Rightarrow> cl_device_id \<Rightarrow> cl_device_info \<Rightarrow> string io" where
  \<comment> \<open>the static helper: the first call asks for the size, which the runtime reports as
      the length of the string and its terminator; the second fills a buffer of that
      size; the result is the C string in the buffer\<close>
  "getDeviceInfo env i info =
     bind_io (OPENCL_SAFE_CALL env (clGetDeviceInfo i info 0 False))
       (\<lambda>_. let size = length (device_string env i info) + 1
             in bind_io (OPENCL_SAFE_CALL env (clGetDeviceInfo i info size True))
                  (\<lambda>_. return_io (c_str (device_string env i info @ [NUL]))))"

definition version :: "native \<Rightarrow> Device \<Rightarrow> string io" where
  "version env this = getDeviceInfo env (id_of this) CL_DEVICE_VERSION"

definition name :: "native \<Rightarrow> Device \<Rightarrow> string io" where
  "name env this = getDeviceInfo env (id_of this) CL_DEVICE_NAME"

definition vendor :: "native \<Rightarrow> Device \<Rightarrow> string io" where
  "vendor env this = getDeviceInfo env (id_of this) CL_DEVICE_VENDOR"

definition extensions :: "native \<Rightarrow> Device \<Rightarrow> string io" where
  "extensions env this = getDeviceInfo env (id_of this) CL_DEVICE_EXTENSIONS"

definition supportsVersion :: "native \<Rightarrow> Device \<Rightarrow> int \<Rightarrow> int \<Rightarrow> bool io" where
  "supportsVersion env this major minor =
     bind_io (version env this) (\<lambda>v. return_io (supportsVersion_str v major minor))"

subsection \<open>Lifetime\<close>

definition supportsAtLeast1Point2 :: "native \<Rightarrow> cl_platform_id \<Rightarrow> bool io" where
  \<comment> \<open>one clGetPlatformInfo with the 128 bytes of \<open>version\<close>; its status is not looked at.
      The runtime fills the buffer when it reports success, which it does not when the
      string and its terminator take more than the 128 bytes; the buffer is then as it
      was declared, uninitialised, and sscanf reads it.\<close>
  "supportsAtLeast1Point2 env pl =
     (if status env (clGetPlatformInfo pl 128) = CL_SUCCESS
         \<and> length (platform_version env pl) + 1 \<le> 128
      then Inr (supportsAtLeast1Point2_str (platform_version env pl @ [NUL]))
      else Inl UninitializedRead,
      [clGetPlatformInfo pl 128])"

definition destroy_Device :: "bool \<Rightarrow> native \<Rightarrow> Device \<Rightarrow> unit io \<times> Device" where
  \<comment> \<open>\<open>~Device()\<close>; the first argument says whether OPENCL_V1_2 is defined at compile
      time. An exception that leaves the destructor ends the program; the model keeps the
      exception and the object as it was when it was thrown.\<close>
  "destroy_Device OPENCL_V1_2 env this =
     (if dev_id this \<noteq> 0 then
        (case (if OPENCL_V1_2
               then bind_io (platform env this)
                      (\<lambda>pl. bind_io (supportsAtLeast1Point2 env pl)
                         (\<lambda>b. if b then OPENCL_SAFE_CALL env (clReleaseDevice (dev_id this))
                               else return_io ()))
               else return_io ()) of
           (Inl e, t) \<Rightarrow> ((Inl e, t), this)
         | (Inr _, t) \<Rightarrow> ((Inr (), t), this\<lparr>dev_id := 0\<rparr>))
      else (return_io (), this))"

definition copy_Device :: "bool \<Rightarrow> native \<Rightarrow> Device \<Rightarrow> Device io" where
  \<comment> \<open>\<open>Device(const Device& dev)\<close>\<close>
  "copy_Device OPENCL_V1_2 env dev =
     (let this = \<lparr>dev_id = dev_id dev, dev_type = dev_type dev\<rparr>
      in bind_io (if OPENCL_V1_2
                  then bind_io (platform env this)
                         (\<lambda>pl. bind_io (supportsAtLeast1Point2 env pl)
                            (\<lambda>b. if b then OPENCL_SAFE_CALL env (clRetainDevice (dev_id this))
                                  else return_io ()))
                  else return_io ())
           (\<lambda>_. return_io this))"

definition assign_Device :: "bool \<Rightarrow> native \<Rightarrow> bool \<Rightarrow> Device \<Rightarrow> Device \<Rightarrow> unit io \<times> Device" where
  \<comment> \<open>\<open>operator =(const Device& dev)\<close>; \<open>same\<close> says whether \<open>this == &dev\<close>\<close>
  "assign_Device OPENCL_V1_2 env same this dev =
     (if \<not> same then
        (let this' = this\<lparr>dev_id := dev_id dev, dev_type := dev_type dev\<rparr>
         in (if OPENCL_V1_2
             then bind_io (platform env this')
                    (\<lambda>pl. bind_io (supportsAtLeast1Point2 env pl)
                       (\<lambda>b. if b then OPENCL_SAFE_CALL env (clRetainDevice (dev_id this'))
                             else return_io ()))
             else return_io (), this'))
      else (return_io (), this))"


subsection \<open>Extensions\<close>

definition strlen :: "string \<Rightarrow> nat" where
  "strlen buf = length (c_str buf)"

definition strcspn :: "string \<Rightarrow> string \<Rightarrow> nat" where
  \<comment> \<open>the number of characters before the first one of \<open>reject\<close>, or before the terminator\<close>
  "strcspn buf reject = length (takeWhile (\<lambda>c. c \<notin> set reject \<and> c \<noteq> NUL) buf)"

fun strncmp :: "string \<Rightarrow> string \<Rightarrow> nat \<Rightarrow> int" where
  \<comment> \<open>at most n characters are compared, as unsigned bytes, and none after a terminator;
      both arguments are terminated buffers, so the end of a list is never reached\<close>
  "strncmp a b 0 = 0"
| "strncmp a b (Suc n) =
     (let x = (case a of [] \<Rightarrow> NUL | c # _ \<Rightarrow> c);
          y = (case b of [] \<Rightarrow> NUL | c # _ \<Rightarrow> c)
      in if x \<noteq> y then int (of_char x) - int (of_char y)
         else if x = NUL then 0
         else strncmp (tl a) (tl b) n)"

function supportsExtension_loop :: "string \<Rightarrow> string \<Rightarrow> nat \<Rightarrow> error + bool" where
  \<comment> \<open>the while loop of the static supportsExtension: \<open>buf\<close> is the storage behind
      \<open>extensionsString.c_str()\<close>, \<open>extension\<close> the buffer behind the char pointer, and p
      the offset of the pointer p in \<open>buf\<close>. Reading \<open>*p\<close> at or after the end of the
      storage is the out-of-bounds read.\<close>
  "supportsExtension_loop buf extension p =
     (if length buf \<le> p then Inl (OutOfBoundsRead p)
      else if buf ! p = NUL then Inr False
      else (let n = strcspn (drop p buf) '' ''
            in if strlen extension = n \<and> strncmp (drop p buf) extension n = 0 then Inr True
               else supportsExtension_loop buf extension (p + Suc n)))"
  by pat_completeness auto
termination
  by (relation "measure (\<lambda>(buf, extension, p). length buf - p)") auto

declare supportsExtension_loop.simps [simp del]

definition supportsExtension_static :: "string \<Rightarrow> string \<Rightarrow> error + bool" where
  \<comment> \<open>the static \<open>supportsExtension(std::string const&, char const*)\<close>: a std::string
      keeps a terminator after its characters, and so does the C string \<open>extension\<close>\<close>
  "supportsExtension_static extensionsString extension =
     supportsExtension_loop (extensionsString @ [NUL]) (extension @ [NUL]) 0"

definition supportsExtension :: "native \<Rightarrow> Device \<Rightarrow> string \<Rightarrow> bool io" where
  "supportsExtension env this ext =
     bind_io (extensions env this) (\<lambda>es. (supportsExtension_static es ext, []))"

definition doubleSupport :: "native \<Rightarrow> Device \<Rightarrow> bool io" where
  "doubleSupport env this = supportsExtension env this ''cl_khr_fp64''"

section \<open>Notions used to state the properties\<close>

text \<open>
  The decimal numeral of a natural number, for version strings of the form
  \<open>OpenCL <major>.<minor> <rest>\<close>.
\<close>

fun dec :: "nat \<Rightarrow> string" where
  "dec n = (if n < 10 then [char_of (48 + n)] else dec (n div 10) @ [char_of (48 + n mod 10)])"

declare dec.simps [simp del]

text \<open>
  The pieces of a space-delimited string: \<open>split_sp\<close> cuts at every space; the tokens are
  these pieces, without the empty piece after a final space (and the empty string has no
  token).
\<close>

fun split_sp :: "string \<Rightarrow> string list" where
  "split_sp [] = [[]]"
| "split_sp (c # cs) =
     (if c = CHR '' '' then [] # split_sp cs
      else (case split_sp cs of [] \<Rightarrow> [[c]] | t # ts \<Rightarrow> (c # t) # ts))"

definition tokens :: "string \<Rightarrow> string list" where
  "tokens s = (if s = [] \<or> last s = CHR '' '' then butlast (split_sp s) else split_sp s)"

text \<open>
  What a call ends with, its result left out: the exception, if one is thrown, and the
  native calls issued. \<open>on_null_device\<close> holds of a device query on the null identifier.
\<close>

definition on_null_device :: "native_call \<Rightarrow> bool" where
  "on_null_device c = (case c of clGetDeviceInfo i _ _ _ \<Rightarrow> i = 0 | _ \<Rightarrow> False)"

definition outcome :: "'a io \<Rightarrow> error option \<times> native_call list" where
  "outcome r = (case fst r of Inl e \<Rightarrow> Some e | Inr _ \<Rightarrow> None, snd r)"

text \<open>Whether a native call is a release.\<close>

definition is_release :: "native_call \<Rightarrow> bool" where
  "is_release c = (case c of clReleaseDevice _ \<Rightarrow> True | _ \<Rightarrow> False)"

text \<open>
  The conditions on the runtime under which destruction is described: the query for the
  owning platform of the handle succeeds and yields the platform \<open>pl\<close>; the version of
  \<open>pl\<close> is read, that is, the call succeeds and the string fits the 128 bytes with its
  terminator; and \<open>pl\<close> supports explicit reference counting, that is, its version is at
  least 1.2 by the rule of \<open>supportsVersion\<close>.
\<close>

definition platform_read :: "native \<Rightarrow> Device \<Rightarrow> cl_platform_id \<Rightarrow> bool" where
  "platform_read env this pl =
     (status env (clGetDeviceInfo (dev_id this) CL_DEVICE_PLATFORM 8 True) = CL_SUCCESS
      \<and> device_value env (dev_id this) CL_DEVICE_PLATFORM = pl \<and> pl \<noteq> 0)"

definition version_read :: "native \<Rightarrow> cl_platform_id \<Rightarrow> bool" where
  "version_read env pl =
     (status env (clGetPlatformInfo pl 128) = CL_SUCCESS
      \<and> length (platform_version env pl) + 1 \<le> 128)"

definition counts_references :: "native \<Rightarrow> cl_platform_id \<Rightarrow> bool" where
  "counts_references env pl = supportsVersion_str (platform_version env pl) 1 2"

text \<open>
  The native calls of the destructions of several handles, one after the other; an
  exception that leaves a destructor ends the program.
\<close>

fun destroy_each :: "bool \<Rightarrow> native \<Rightarrow> Device list \<Rightarrow> native_call list" where
  "destroy_each v12 env [] = []"
| "destroy_each v12 env (d # ds) =
     (case destroy_Device v12 env d of
        ((Inl e, t), _) \<Rightarrow> t
      | ((Inr _, t), _) \<Rightarrow> t @ destroy_each v12 env ds)"

text \<open>
  A runtime for the examples: it rejects the null device with CL_INVALID_DEVICE, reports
  CL_INVALID_VALUE when the buffer passed for the platform version \<open>pv\<close> is too small, and
  places every device on the platform \<open>pl\<close>.
\<close>

definition example_native :: "string \<Rightarrow> nat \<Rightarrow> native" where
  "example_native pv pl =
     \<lparr>status = (\<lambda>c. case c of
                  clGetDeviceInfo i _ _ _ \<Rightarrow> if i = 0 then CL_INVALID_DEVICE else CL_SUCCESS
                | clGetPlatformInfo p n \<Rightarrow> if n < length pv + 1 then CL_INVALID_VALUE else CL_SUCCESS
                | clRetainDevice i \<Rightarrow> if i = 0 then CL_INVALID_DEVICE else CL_SUCCESS
                | clReleaseDevice i \<Rightarrow> if i = 0 then CL_INVALID_DEVICE else CL_SUCCESS),
      device_value = (\<lambda>i k. if k = CL_DEVICE_PLATFORM then pl else 0),
      device_sizes = (\<lambda>i. [1, 1, 1]),
      device_string = (\<lambda>i k. if k = CL_DEVICE_VERSION then ''OpenCL 1.2 CUDA''
                              else if k = CL_DEVICE_EXTENSIONS then ''cl_khr_fp64 cl_khr_gl_sharing''
                              else ''Device''),
      platform_version = (\<lambda>p. pv)\<rparr>"

text \<open>The same runtime, but one that answers every release with CL_OUT_OF_RESOURCES.\<close>

definition release_rejected :: "native \<Rightarrow> native" where
  "release_rejected env =
     env\<lparr>status := (\<lambda>c. case c of clReleaseDevice _ \<Rightarrow> CL_OUT_OF_RESOURCES | _ \<Rightarrow> status env c)\<rparr>"

section \<open>Basic facts\<close>

lemmas io_defs = bind_io_def return_io_def throw_io_def OPENCL_SAFE_CALL_def

lemmas scan_defs = sscanf_OpenCL_i_i_def c_str_def NUL_def scan_i_def
  isspace_def is_digit_def digit_val_def digits_value_def to_int_def

lemma c_str_terminated: "c_str (s @ [NUL]) = c_str s"
  by (induction s) (simp_all add: c_str_def)

lemma getDeviceInfo_eq:
  "getDeviceInfo env i k =
     (if status env (clGetDeviceInfo i k 0 False) \<noteq> CL_SUCCESS
      then (Inl (NativeApiError (status env (clGetDeviceInfo i k 0 False))), [clGetDeviceInfo i k 0 False])
      else if status env (clGetDeviceInfo i k (length (device_string env i k) + 1) True) \<noteq> CL_SUCCESS
      then (Inl (NativeApiError (status env (clGetDeviceInfo i k (length (device_string env i k) + 1) True))),
            [clGetDeviceInfo i k 0 False, clGetDeviceInfo i k (length (device_string env i k) + 1) True])
      else (Inr (c_str (device_string env i k)),
            [clGetDeviceInfo i k 0 False, clGetDeviceInfo i k (length (device_string env i k) + 1) True]))"
  by (simp add: getDeviceInfo_def io_defs Let_def c_str_terminated)

lemma outcome_fixed:
  "outcome (bind_io (OPENCL_SAFE_CALL env c) (\<lambda>_. return_io v)) =
     (if status env c = CL_SUCCESS then None else Some (NativeApiError (status env c)), [c])"
  by (simp add: outcome_def io_defs)

lemma outcome_getDeviceInfo:
  "outcome (bind_io (getDeviceInfo env i k) (\<lambda>s. (f s, []))) =
     (if status env (clGetDeviceInfo i k 0 False) \<noteq> CL_SUCCESS
      then (Some (NativeApiError (status env (clGetDeviceInfo i k 0 False))), [clGetDeviceInfo i k 0 False])
      else if status env (clGetDeviceInfo i k (length (device_string env i k) + 1) True) \<noteq> CL_SUCCESS
      then (Some (NativeApiError (status env (clGetDeviceInfo i k (length (device_string env i k) + 1) True))),
            [clGetDeviceInfo i k 0 False, clGetDeviceInfo i k (length (device_string env i k) + 1) True])
      else (case f (c_str (device_string env i k)) of Inl e \<Rightarrow> Some e | Inr _ \<Rightarrow> None,
            [clGetDeviceInfo i k 0 False, clGetDeviceInfo i k (length (device_string env i k) + 1) True]))"
  by (simp add: outcome_def getDeviceInfo_eq bind_io_def)

lemma fixed_on_null:
  "case outcome (bind_io (OPENCL_SAFE_CALL env (clGetDeviceInfo 0 k n b)) (\<lambda>_. return_io v)) of
     (e, t) \<Rightarrow> t \<noteq> [] \<and> list_all on_null_device t
       \<and> (status env (last t) \<noteq> CL_SUCCESS) = (e = Some (NativeApiError (status env (last t))))"
  by (simp add: outcome_fixed on_null_device_def)

lemma platform_eq:
  "platform env this =
     (if status env (clGetDeviceInfo (dev_id this) CL_DEVICE_PLATFORM 8 True) \<noteq> CL_SUCCESS
      then Inl (NativeApiError (status env (clGetDeviceInfo (dev_id this) CL_DEVICE_PLATFORM 8 True)))
      else if device_value env (dev_id this) CL_DEVICE_PLATFORM = 0
      then Inl (runtime_error ''platform not found'')
      else Inr (device_value env (dev_id this) CL_DEVICE_PLATFORM),
      [clGetDeviceInfo (dev_id this) CL_DEVICE_PLATFORM 8 True])"
  by (simp add: platform_def io_defs id_of_def Let_def)

lemma gate_trace: "snd (supportsAtLeast1Point2 env pl) = [clGetPlatformInfo pl 128]"
  by (simp add: supportsAtLeast1Point2_def)

lemma destroy_cases:
  "destroy_Device v12 env this =
     (if dev_id this = 0 then ((Inr (), []), this)
      else if \<not> v12 then ((Inr (), []), this\<lparr>dev_id := 0\<rparr>)
      else (case platform env this of
              (Inl e, t) \<Rightarrow> ((Inl e, t), this)
            | (Inr pl, t) \<Rightarrow>
                (case fst (supportsAtLeast1Point2 env pl) of
                   Inl e \<Rightarrow> ((Inl e, t @ [clGetPlatformInfo pl 128]), this)
                 | Inr False \<Rightarrow> ((Inr (), t @ [clGetPlatformInfo pl 128]), this\<lparr>dev_id := 0\<rparr>)
                 | Inr True \<Rightarrow>
                     (if status env (clReleaseDevice (dev_id this)) = CL_SUCCESS
                      then ((Inr (), t @ [clGetPlatformInfo pl 128, clReleaseDevice (dev_id this)]),
                            this\<lparr>dev_id := 0\<rparr>)
                      else ((Inl (NativeApiError (status env (clReleaseDevice (dev_id this)))),
                             t @ [clGetPlatformInfo pl 128, clReleaseDevice (dev_id this)]), this)))))"
  by (auto simp: destroy_Device_def io_defs supportsAtLeast1Point2_def
      split: prod.splits sum.splits bool.splits)


lemma destroy_empty: "dev_id d = 0 \<Longrightarrow> destroy_Device v12 env d = ((Inr (), []), d)"
  by (simp add: destroy_cases)

lemma destroy_completed:
  "fst (fst (destroy_Device v12 env this)) = Inr () \<Longrightarrow> dev_id (snd (destroy_Device v12 env this)) = 0"
  by (auto simp: destroy_cases platform_eq split: if_splits sum.splits bool.splits)

section \<open>Version strings\<close>

lemma digit_val_char_of: "d < 10 \<Longrightarrow> digit_val (char_of (48 + d)) = Some d"
  by (simp add: digit_val_def Let_def)

lemma of_char_dec_digit: "d < 10 \<Longrightarrow> (of_char (char_of (48 + d)) :: nat) = 48 + d"
  by simp

lemma dec_not_Nil: "dec n \<noteq> []"
  by (subst dec.simps) simp

lemma dec_digits: "c \<in> set (dec n) \<Longrightarrow> \<exists>d::nat. d < 10 \<and> c = char_of (48 + d)"
proof (induction n arbitrary: c rule: dec.induct)
  case (1 n)
  show ?case
  proof (cases "n < 10")
    case True
    with "1.prems" show ?thesis by (subst (asm) dec.simps) auto
  next
    case False
    from "1.prems" have "c \<in> set (dec (n div 10)) \<or> c = char_of (48 + n mod 10)"
      using False by (subst (asm) dec.simps) auto
    then show ?thesis
    proof
      assume "c \<in> set (dec (n div 10))"
      with "1.IH" False show ?thesis by blast
    next
      assume "c = char_of (48 + n mod 10)"
      moreover have "n mod 10 < 10" by simp
      ultimately show ?thesis by blast
    qed
  qed
qed

lemma digits_value_snoc:
  "digits_value b (ds @ [c]) = digits_value b ds * b + (case digit_val c of Some v \<Rightarrow> v | None \<Rightarrow> 0)"
  by (simp add: digits_value_def)

lemma digits_value_dec: "digits_value 10 (dec n) = n"
proof (induction n rule: dec.induct)
  case (1 n)
  show ?case
  proof (cases "n < 10")
    case True
    then show ?thesis
      by (subst dec.simps) (simp add: digits_value_def digit_val_char_of)
  next
    case False
    have "digits_value 10 (dec n) = digits_value 10 (dec (n div 10)) * 10 + n mod 10"
      using False by (subst dec.simps) (simp add: digits_value_snoc digit_val_char_of)
    with "1.IH" False show ?thesis by simp
  qed
qed

lemma hd_dec_zero: "(hd (dec n) = CHR ''0'') = (n = 0)"
proof (induction n rule: dec.induct)
  case (1 n)
  show ?case
  proof (cases "n < 10")
    case True
    have "(char_of (48 + n) = CHR ''0'') = (n = 0)"
    proof
      assume "char_of (48 + n) = CHR ''0''"
      then have "(of_char (char_of (48 + n)) :: nat) = of_char CHR ''0''" by simp
      with True show "n = 0" by simp
    next
      assume "n = 0"
      have "(of_char CHR ''0'' :: nat) = 48" by simp
      then have "char_of (48 :: nat) = CHR ''0''" by (metis char_of_char)
      with \<open>n = 0\<close> show "char_of (48 + n) = CHR ''0''" by simp
    qed
    with True show ?thesis by (subst dec.simps) simp
  next
    case False
    then have "hd (dec n) = hd (dec (n div 10))"
      by (subst dec.simps) (simp add: dec_not_Nil)
    moreover from False have "n div 10 \<noteq> 0" by simp
    ultimately show ?thesis using "1.IH" False by simp
  qed
qed


lemma digit_val_special:
  "isspace c \<or> c = CHR ''-'' \<or> c = CHR ''+'' \<or> c = CHR ''.'' \<or> c = NUL \<Longrightarrow> digit_val c = None"
  by (auto simp: digit_val_def isspace_def NUL_def)

lemma not_is_digit_special:
  "isspace c \<or> c = CHR ''-'' \<or> c = CHR ''+'' \<or> c = CHR ''.'' \<or> c = NUL \<Longrightarrow> \<not> is_digit b c"
  by (simp add: is_digit_def digit_val_special)

lemma dec_is_digit: "c \<in> set (dec n) \<Longrightarrow> is_digit 10 c"
  using dec_digits [of c n] by (auto simp: is_digit_def digit_val_char_of)

lemma dec_digit_val: "c \<in> set (dec n) \<Longrightarrow> digit_val c \<noteq> None"
  using dec_digits [of c n] by (auto simp: digit_val_char_of)

lemma dec_0: "dec 0 = ''0''"
proof -
  have "(of_char CHR ''0'' :: nat) = 48" by simp
  then have "char_of (48 :: nat) = CHR ''0''" by (metis char_of_char)
  then show ?thesis by (subst dec.simps) simp
qed

lemma takeWhile_digits_stop:
  assumes "\<And>c. c \<in> set ds \<Longrightarrow> is_digit b c"
    and "rest = [] \<or> hd rest = CHR ''.'' \<or> hd rest = CHR '' ''"
  shows "takeWhile (is_digit b) (ds @ rest) = ds"
proof -
  have "takeWhile (is_digit b) rest = []"
  proof (cases rest)
    case Nil
    then show ?thesis by simp
  next
    case (Cons c cs)
    with assms(2) have "c = CHR ''.'' \<or> c = CHR '' ''" by simp
    then have "\<not> is_digit b c"
      by (auto simp: is_digit_def digit_val_def)
    with Cons show ?thesis by simp
  qed
  with assms(1) show ?thesis by (simp add: takeWhile_append2)
qed

lemma scan_i_decimal:
  assumes "s = c # t" "\<not> isspace c" "c \<noteq> CHR ''-''" "c \<noteq> CHR ''+''" "c \<noteq> CHR ''0''"
    and "is_digit 10 c"
  shows "scan_i s = Some (to_int (int (digits_value 10 (takeWhile (is_digit 10) s))),
                          drop (length (takeWhile (is_digit 10) s)) s)"
  using assms by (simp add: scan_i_def Let_def split: list.split)

lemma scan_i_dec:
  assumes stop: "rest = [] \<or> hd rest = CHR ''.'' \<or> hd rest = CHR '' ''"
  shows "scan_i (dec n @ rest) = Some (to_int (int n), rest)"
proof (cases "n = 0")
  case True
  have nohex: "\<not> (case rest of [] \<Rightarrow> False | d # _ \<Rightarrow> d = CHR ''x'' \<or> d = CHR ''X'')"
    using stop by (cases rest) auto
  have "is_digit 8 CHR ''0''" by (simp add: is_digit_def digit_val_def)
  then have tw: "takeWhile (is_digit 8) (''0'' @ rest) = ''0''"
    using takeWhile_digits_stop [of "''0''" 8 rest] stop by simp
  have "digits_value 8 ''0'' = 0" by (simp add: digits_value_def digit_val_def)
  with tw nohex show ?thesis
    unfolding True dec_0
    by (cases rest) (simp_all add: scan_i_def isspace_def Let_def)
next
  case False
  obtain c cs where ccs: "dec n = c # cs"
    using dec_not_Nil [of n] by (cases "dec n") auto
  then have cin: "c \<in> set (dec n)" by simp
  have c0: "c \<noteq> CHR ''0''"
    using hd_dec_zero [of n] False ccs by simp
  from cin have "digit_val c \<noteq> None" by (rule dec_digit_val)
  then have cs: "\<not> isspace c" "c \<noteq> CHR ''-''" "c \<noteq> CHR ''+''"
    using digit_val_special [of c] by auto
  have tw: "takeWhile (is_digit 10) (dec n @ rest) = dec n"
    using takeWhile_digits_stop [of "dec n" 10 rest] dec_is_digit stop by blast
  have "dec n @ rest = c # (cs @ rest)" by (simp add: ccs)
  from scan_i_decimal [OF this cs c0 dec_is_digit [OF cin]]
  show ?thesis by (simp only: tw digits_value_dec append_eq_conv_conj drop_all length_append)
      (simp add: digits_value_dec)
qed


lemma NUL_notin_dec: "NUL \<notin> set (dec n)"
  using dec_digit_val [of NUL n] digit_val_special [of NUL] by auto

lemma c_str_append: "NUL \<notin> set xs \<Longrightarrow> c_str (xs @ ys) = xs @ c_str ys"
  unfolding c_str_def by (rule takeWhile_append2) auto

lemma c_str_stop:
  "rest = [] \<or> hd rest = CHR '' '' \<Longrightarrow> c_str rest = [] \<or> hd (c_str rest) = CHR '' ''"
  by (cases rest) (auto simp: c_str_def NUL_def)

lemma c_str_version:
  "c_str (''OpenCL '' @ dec a @ ''.'' @ dec b @ rest) = ''OpenCL '' @ dec a @ ''.'' @ dec b @ c_str rest"
proof -
  have "NUL \<notin> set (''OpenCL '' @ dec a @ ''.'' @ dec b)"
    using NUL_notin_dec [of a] NUL_notin_dec [of b] by (simp add: NUL_def)
  from c_str_append [OF this, of rest] show ?thesis by simp
qed

lemma dropWhile_isspace_dec: "dropWhile isspace (dec n @ r) = dec n @ r"
proof -
  obtain c cs where ccs: "dec n = c # cs"
    using dec_not_Nil [of n] by (cases "dec n") auto
  then have "digit_val c \<noteq> None" using dec_digit_val [of c n] by simp
  then have "\<not> isspace c" using digit_val_special [of c] by auto
  then show ?thesis by (simp add: ccs)
qed

lemma sscanf_dec:
  assumes "rest = [] \<or> hd rest = CHR '' ''"
  shows "sscanf_OpenCL_i_i (''OpenCL '' @ dec a @ ''.'' @ dec b @ rest) ab
           = (to_int (int a), to_int (int b))"
proof -
  let ?r = "c_str rest"
  have stop: "?r = [] \<or> hd ?r = CHR ''.'' \<or> hd ?r = CHR '' ''"
    using c_str_stop [OF assms] by blast
  have a: "scan_i (dec a @ (''.'' @ dec b @ ?r)) = Some (to_int (int a), ''.'' @ dec b @ ?r)"
    by (rule scan_i_dec) simp
  have b: "scan_i (dec b @ ?r) = Some (to_int (int b), ?r)"
    by (rule scan_i_dec) (rule stop)
  have sp: "dropWhile isspace ('' '' @ dec a @ ''.'' @ dec b @ ?r) = dec a @ (''.'' @ dec b @ ?r)"
    using dropWhile_isspace_dec [of a "''.'' @ dec b @ ?r"] by (simp add: isspace_def)
  show ?thesis
    unfolding sscanf_OpenCL_i_i_def c_str_version
    using a b sp by (simp add: Let_def)
qed

lemma to_int_id: "- (2 ^ 31) \<le> v \<Longrightarrow> v < 2 ^ 31 \<Longrightarrow> to_int v = v"
  by (simp add: to_int_def)


text \<open>
  Claim C2, as the code has it. \<open>supportsVersion\<close> scans the version string with the format
  \<open>"OpenCL %i.%i"\<close>: the prefix is the literal \<open>OpenCL\<close>. For a string
  \<open>OpenCL <major>.<minor>\<close> followed by the end or by a space, with decimal numerals that
  fit an int, the two integers are extracted; a string that does not start with \<open>OpenCL\<close>
  (the empty string among them) leaves both at 0. The result is true iff
  \<open>parsedMajor > major\<close>, or \<open>parsedMajor = major\<close> and \<open>parsedMinor \<ge> minor\<close>. For
  \<open>"OpenCL 2.1 extra"\<close>: (2,0) and (2,1) are supported, (2,2) is not; for the empty string
  (0,0) is supported and (1,0) is not.
\<close>

theorem supportsVersion_OpenCL_format:
  "(a < 2 ^ 31 \<and> b < 2 ^ 31 \<and> (rest = [] \<or> hd rest = CHR '' '')
     \<longrightarrow> supportsVersion_str (''OpenCL '' @ dec a @ ''.'' @ dec b @ rest) major minor
           = (int a > major \<or> (int a = major \<and> int b \<ge> minor)))
   \<and> (take 6 (c_str v) \<noteq> ''OpenCL''
        \<longrightarrow> supportsVersion_str v major minor = (0 > major \<or> (0 = major \<and> 0 \<ge> minor)))
   \<and> supportsVersion_str v major minor
        = (case sscanf_OpenCL_i_i v (0, 0) of
             (mjr, mnr) \<Rightarrow> mjr > major \<or> (mjr = major \<and> mnr \<ge> minor))
   \<and> (fst (version env this) = Inr v
        \<longrightarrow> fst (supportsVersion env this major minor) = Inr (supportsVersion_str v major minor))
   \<and> supportsVersion_str ''OpenCL 2.1 extra'' 2 0
   \<and> supportsVersion_str ''OpenCL 2.1 extra'' 2 1
   \<and> \<not> supportsVersion_str ''OpenCL 2.1 extra'' 2 2
   \<and> supportsVersion_str [] 0 0
   \<and> \<not> supportsVersion_str [] 1 0"
proof -
  have fmt: "a < 2 ^ 31 \<and> b < 2 ^ 31 \<and> (rest = [] \<or> hd rest = CHR '' '')
     \<longrightarrow> supportsVersion_str (''OpenCL '' @ dec a @ ''.'' @ dec b @ rest) major minor
           = (int a > major \<or> (int a = major \<and> int b \<ge> minor))"
  proof (intro impI, elim conjE)
    assume a: "a < 2 ^ 31" and b: "b < 2 ^ 31" and r: "rest = [] \<or> hd rest = CHR '' ''"
    have "to_int (int a) = int a" "to_int (int b) = int b"
      using a b by (simp_all add: to_int_id)
    then show "supportsVersion_str (''OpenCL '' @ dec a @ ''.'' @ dec b @ rest) major minor
           = (int a > major \<or> (int a = major \<and> int b \<ge> minor))"
      unfolding supportsVersion_str_def sscanf_dec [OF r] by simp
  qed
  have other: "take 6 (c_str v) \<noteq> ''OpenCL''
        \<longrightarrow> supportsVersion_str v major minor = (0 > major \<or> (0 = major \<and> 0 \<ge> minor))"
    by (simp add: supportsVersion_str_def sscanf_OpenCL_i_i_def)
  have rule: "supportsVersion_str v major minor
        = (case sscanf_OpenCL_i_i v (0, 0) of
             (mjr, mnr) \<Rightarrow> mjr > major \<or> (mjr = major \<and> mnr \<ge> minor))"
    by (simp add: supportsVersion_str_def)
  have meth: "fst (version env this) = Inr v
        \<longrightarrow> fst (supportsVersion env this major minor) = Inr (supportsVersion_str v major minor)"
    by (auto simp: supportsVersion_def io_defs split: prod.splits sum.splits)
  have e1: "supportsVersion_str ''OpenCL 2.1 extra'' 2 0"
    by (simp add: supportsVersion_str_def scan_defs)
  have e2: "supportsVersion_str ''OpenCL 2.1 extra'' 2 1"
    by (simp add: supportsVersion_str_def scan_defs)
  have e3: "\<not> supportsVersion_str ''OpenCL 2.1 extra'' 2 2"
    by (simp add: supportsVersion_str_def scan_defs)
  have e4: "supportsVersion_str [] 0 0"
    by (simp add: supportsVersion_str_def scan_defs)
  have e5: "\<not> supportsVersion_str [] 1 0"
    by (simp add: supportsVersion_str_def scan_defs)
  from fmt other rule meth e1 e2 e3 e4 e5 show ?thesis by blast
qed

theorem supportsVersion_OpenCL_format_witness:
  "(3::nat) < 2 ^ 31 \<and> (0::nat) < 2 ^ 31 \<and> hd '' NVIDIA'' = CHR '' ''
   \<and> supportsVersion_str (''OpenCL '' @ dec 3 @ ''.'' @ dec 0 @ '' NVIDIA'') 1 2
   \<and> take 6 (c_str ''Mesa 3.0'') \<noteq> ''OpenCL''
   \<and> \<not> supportsVersion_str ''Mesa 3.0'' 1 2
   \<and> fst (version (example_native ''OpenCL 1.2 CUDA'' 3) \<lparr>dev_id = 7, dev_type = type_GPU\<rparr>)
       = Inr ''OpenCL 1.2 CUDA''
   \<and> fst (supportsVersion (example_native ''OpenCL 1.2 CUDA'' 3)
             \<lparr>dev_id = 7, dev_type = type_GPU\<rparr> 1 2)
       = Inr (supportsVersion_str ''OpenCL 1.2 CUDA'' 1 2)"
proof -
  let ?env = "example_native ''OpenCL 1.2 CUDA'' 3"
  let ?d = "\<lparr>dev_id = 7, dev_type = type_GPU\<rparr>"
  have v: "fst (version ?env ?d) = Inr ''OpenCL 1.2 CUDA''"
    by (simp add: version_def id_of_def getDeviceInfo_eq example_native_def c_str_def NUL_def)
  have m: "take 6 (c_str ''Mesa 3.0'') \<noteq> ''OpenCL''"
    by (simp add: c_str_def NUL_def)
  from supportsVersion_OpenCL_format [of 3 0 "'' NVIDIA''" 1 2 "''Mesa 3.0''"] m
    supportsVersion_OpenCL_format [of 3 0 "'' NVIDIA''" 1 2 "''OpenCL 1.2 CUDA''" ?env ?d] v
  show ?thesis by simp
qed

text \<open>
  Claim C2 as stated fails: with the version string \<open>"X 2.1 extra"\<close> the literal \<open>OpenCL\<close> does
  not match, both integers stay 0, and version (2,0) is reported as not supported.
\<close>

theorem supportsVersion_prefix_counterexample:
  "\<not> supportsVersion_str ''X 2.1 extra'' 2 0"
  by (simp add: supportsVersion_str_def sscanf_OpenCL_i_i_def c_str_def NUL_def)

lemma supportsAtLeast1Point2_str_terminated:
  "supportsAtLeast1Point2_str (v @ [NUL]) = supportsAtLeast1Point2_str v"
  by (simp add: supportsAtLeast1Point2_str_def sscanf_OpenCL_i_i_def c_str_terminated)

text \<open>
  Claim C6: on every content of the version buffer, the comparison of
  \<open>supportsAtLeast1Point2\<close> (\<open>major > 1\<close>, or \<open>major = 1\<close> and \<open>minor > 1\<close>) gives the
  result of the rule of \<open>supportsVersion\<close> at (1,2), strings that scan as (0,0) included.
  So the gate of the copy constructor, the assignment and the destructor, once the
  platform version is in its buffer, answers what \<open>supportsVersion\<close> would answer for
  (1,2) on that string.
\<close>

theorem supportsAtLeast1Point2_is_supportsVersion_1_2:
  "supportsAtLeast1Point2_str s = supportsVersion_str s 1 2
   \<and> supportsAtLeast1Point2_str s
       = (case sscanf_OpenCL_i_i s (0, 0) of
            (parsedMajor, parsedMinor) \<Rightarrow>
              parsedMajor > 1 \<or> (parsedMajor = 1 \<and> parsedMinor \<ge> 2))
   \<and> (status env (clGetPlatformInfo pl 128) = CL_SUCCESS
        \<and> length (platform_version env pl) + 1 \<le> 128
       \<longrightarrow> supportsAtLeast1Point2 env pl
             = (Inr (supportsVersion_str (platform_version env pl) 1 2), [clGetPlatformInfo pl 128]))"
proof -
  have eq: "supportsAtLeast1Point2_str v = supportsVersion_str v 1 2" for v
    by (auto simp: supportsAtLeast1Point2_str_def supportsVersion_str_def split: prod.splits)
  have rule: "supportsAtLeast1Point2_str s
       = (case sscanf_OpenCL_i_i s (0, 0) of
            (parsedMajor, parsedMinor) \<Rightarrow>
              parsedMajor > 1 \<or> (parsedMajor = 1 \<and> parsedMinor \<ge> 2))"
    by (auto simp: supportsAtLeast1Point2_str_def split: prod.splits)
  have gate: "status env (clGetPlatformInfo pl 128) = CL_SUCCESS
        \<and> length (platform_version env pl) + 1 \<le> 128
       \<longrightarrow> supportsAtLeast1Point2 env pl
             = (Inr (supportsVersion_str (platform_version env pl) 1 2), [clGetPlatformInfo pl 128])"
    by (simp add: supportsAtLeast1Point2_def supportsAtLeast1Point2_str_terminated
        eq [symmetric])
  from eq [of s] rule gate show ?thesis by blast
qed

theorem supportsAtLeast1Point2_is_supportsVersion_1_2_witness:
  "supportsAtLeast1Point2_str ''garbage'' = supportsVersion_str ''garbage'' 1 2
   \<and> status (example_native ''OpenCL 1.2 CUDA'' 3) (clGetPlatformInfo 3 128) = CL_SUCCESS
   \<and> supportsAtLeast1Point2 (example_native ''OpenCL 1.2 CUDA'' 3) 3
       = (Inr (supportsVersion_str ''OpenCL 1.2 CUDA'' 1 2), [clGetPlatformInfo 3 128])"
  using supportsAtLeast1Point2_is_supportsVersion_1_2
      [of "''garbage''" "example_native ''OpenCL 1.2 CUDA'' 3" 3]
  by (simp add: example_native_def)

section \<open>Capability queries on the empty handle\<close>

text \<open>
  Claim C1, as the code has it. No query checks the identifier, and no precondition error
  exists. On the default-constructed handle every capability query issues at least one
  native call, each of its native calls is a device query on the null identifier, and the
  query ends with a NativeApiError exactly when the last call it issued reported a status
  other than success; the error then carries that status.
\<close>

theorem empty_handle_query_forwards_null:
  "\<forall>(e, t) \<in> set
      [outcome (maxComputeUnits env Device_default),
       outcome (maxWorkItemDim env Device_default),
       outcome (maxWorkItemSizes env Device_default),
       outcome (maxWorkGroupSize env Device_default),
       outcome (maxConstantBufferSize env Device_default),
       outcome (maxMemAllocSize env Device_default),
       outcome (globalMemSize env Device_default),
       outcome (localMemSize env Device_default),
       outcome (imageSupport env Device_default),
       outcome (platform env Device_default),
       outcome (version env Device_default),
       outcome (name env Device_default),
       outcome (vendor env Device_default),
       outcome (extensions env Device_default),
       outcome (supportsVersion env Device_default major minor),
       outcome (supportsExtension env Device_default ext),
       outcome (doubleSupport env Device_default)].
     t \<noteq> [] \<and> list_all on_null_device t
     \<and> (status env (last t) \<noteq> CL_SUCCESS) = (e = Some (NativeApiError (status env (last t))))"
proof -
  define P where "P = (\<lambda>(e, t). t \<noteq> [] \<and> list_all on_null_device t
     \<and> (status env (last t) \<noteq> CL_SUCCESS) = (e = Some (NativeApiError (status env (last t)))))"
  have fixed_nat:
    "P (outcome (bind_io (OPENCL_SAFE_CALL env (clGetDeviceInfo 0 k n b)) (\<lambda>_. return_io v)))"
    for k n b and v :: nat
    using fixed_on_null [of env k n b v] by (simp add: P_def)
  have fixed_list:
    "P (outcome (bind_io (OPENCL_SAFE_CALL env (clGetDeviceInfo 0 k n b)) (\<lambda>_. return_io v)))"
    for k n b and v :: "nat list"
    using fixed_on_null [of env k n b v] by (simp add: P_def)
  have fixed_bool:
    "P (outcome (bind_io (OPENCL_SAFE_CALL env (clGetDeviceInfo 0 k n b)) (\<lambda>_. return_io v)))"
    for k n b and v :: bool
    using fixed_on_null [of env k n b v] by (simp add: P_def)
  have str: "P (outcome (bind_io (getDeviceInfo env 0 k) (\<lambda>s. (f s, []))))"
    if "\<And>s st. f s \<noteq> Inl (NativeApiError st)" for k and f :: "string \<Rightarrow> error + bool"
    using that by (auto simp: P_def outcome_getDeviceInfo on_null_device_def split: sum.splits)
  have str0: "P (outcome (getDeviceInfo env 0 k))" for k
    by (simp add: P_def outcome_def getDeviceInfo_eq on_null_device_def)
  have pl: "P (outcome (platform env Device_default))"
    by (simp add: P_def outcome_def platform_eq Device_default_def on_null_device_def)
  have sv: "P (outcome (supportsVersion env Device_default major minor))"
    using str [of "\<lambda>v. Inr (supportsVersion_str v major minor)" CL_DEVICE_VERSION]
    by (simp add: supportsVersion_def version_def return_io_def Device_default_def id_of_def)
  have nat_err: "supportsExtension_loop buf e p \<noteq> Inl (NativeApiError st)" for buf e p st
    by (induction buf e p rule: supportsExtension_loop.induct)
       (subst supportsExtension_loop.simps, simp add: Let_def)
  have se: "P (outcome (supportsExtension env Device_default x))" for x
    using str [of "\<lambda>es. supportsExtension_static es x" CL_DEVICE_EXTENSIONS] nat_err
    by (simp add: supportsExtension_def extensions_def Device_default_def id_of_def
        supportsExtension_static_def)
  show ?thesis
    using fixed_nat fixed_list fixed_bool str0 pl sv se
    by (simp add: P_def [symmetric] maxComputeUnits_def maxWorkItemDim_def maxWorkItemSizes_def
        maxWorkGroupSize_def maxConstantBufferSize_def maxMemAllocSize_def globalMemSize_def
        localMemSize_def imageSupport_def version_def name_def vendor_def extensions_def
        doubleSupport_def Device_default_def id_of_def)
qed

theorem empty_handle_query_forwards_null_witness:
  "outcome (maxComputeUnits (example_native ''OpenCL 1.2 CUDA'' 3) Device_default)
     = (Some (NativeApiError CL_INVALID_DEVICE),
        [clGetDeviceInfo 0 CL_DEVICE_MAX_COMPUTE_UNITS 4 True])
   \<and> outcome (name (example_native ''OpenCL 1.2 CUDA'' 3) Device_default)
       = (Some (NativeApiError CL_INVALID_DEVICE), [clGetDeviceInfo 0 CL_DEVICE_NAME 0 False])
   \<and> on_null_device (clGetDeviceInfo 0 CL_DEVICE_NAME 0 False)
   \<and> status (example_native ''OpenCL 1.2 CUDA'' 3) (clGetDeviceInfo 0 CL_DEVICE_NAME 0 False)
       \<noteq> CL_SUCCESS"
  using empty_handle_query_forwards_null [of "example_native ''OpenCL 1.2 CUDA'' 3" 1 2 "[]"]
  by (simp add: outcome_def maxComputeUnits_def name_def getDeviceInfo_eq io_defs
      Device_default_def id_of_def example_native_def on_null_device_def
      CL_INVALID_DEVICE_def CL_SUCCESS_def)

text \<open>
  Claim C1 as stated fails: \<open>maxComputeUnits\<close> on the empty handle issues the native call
  with the null identifier, and the error it ends with is the NativeApiError of the status
  the runtime answers.
\<close>

theorem maxComputeUnits_empty_counterexample:
  "maxComputeUnits (example_native ''OpenCL 1.2 CUDA'' 3) Device_default
     = (Inl (NativeApiError CL_INVALID_DEVICE),
        [clGetDeviceInfo 0 CL_DEVICE_MAX_COMPUTE_UNITS 4 True])"
  by (simp add: maxComputeUnits_def Device_default_def example_native_def io_defs
      CL_INVALID_DEVICE_def CL_SUCCESS_def)

section \<open>The owning platform\<close>

text \<open>
  Claim C7: for a handle with a non-null identifier, when the platform query succeeds and
  yields the null platform, \<open>platform\<close> throws the runtime error "platform not found", which
  is not the NativeApiError of a failed native call; and \<open>platform\<close> never returns the null
  platform.
\<close>

theorem platform_null_is_runtime_error:
  "(dev_id this \<noteq> 0 \<and> status env (clGetDeviceInfo (dev_id this) CL_DEVICE_PLATFORM 8 True) = CL_SUCCESS
      \<and> device_value env (dev_id this) CL_DEVICE_PLATFORM = 0
     \<longrightarrow> platform env this = (Inl (runtime_error ''platform not found''),
                              [clGetDeviceInfo (dev_id this) CL_DEVICE_PLATFORM 8 True]))
   \<and> runtime_error ''platform not found'' \<noteq> NativeApiError st
   \<and> fst (platform env this) \<noteq> Inr 0"
  by (simp add: platform_def io_defs id_of_def Let_def)

theorem platform_null_is_runtime_error_witness:
  "dev_id \<lparr>dev_id = 7, dev_type = type_GPU\<rparr> \<noteq> 0
   \<and> platform (example_native ''OpenCL 1.2 CUDA'' 0) \<lparr>dev_id = 7, dev_type = type_GPU\<rparr>
       = (Inl (runtime_error ''platform not found''), [clGetDeviceInfo 7 CL_DEVICE_PLATFORM 8 True])"
  using platform_null_is_runtime_error
    [of "\<lparr>dev_id = 7, dev_type = type_GPU\<rparr>" "example_native ''OpenCL 1.2 CUDA'' 0"]
  by (simp add: example_native_def)

section \<open>Destruction\<close>

lemma supportsAtLeast1Point2_read:
  "version_read env pl \<Longrightarrow>
     supportsAtLeast1Point2 env pl = (Inr (counts_references env pl), [clGetPlatformInfo pl 128])"
proof -
  assume r: "version_read env pl"
  have "supportsAtLeast1Point2_str v = supportsVersion_str v 1 2" for v
    by (auto simp: supportsAtLeast1Point2_str_def supportsVersion_str_def split: prod.splits)
  from this [of "platform_version env pl"]
  have "supportsAtLeast1Point2_str (platform_version env pl @ [NUL])
               = counts_references env pl"
    by (simp only: supportsAtLeast1Point2_str_terminated counts_references_def)
  with r show ?thesis
    by (simp add: version_read_def supportsAtLeast1Point2_def)
qed

lemma destroy_Device_read:
  assumes "dev_id this \<noteq> 0" and "platform_read env this pl" and "version_read env pl"
  shows "destroy_Device True env this =
     (if counts_references env pl
      then (if status env (clReleaseDevice (dev_id this)) = CL_SUCCESS
            then ((Inr (), [clGetDeviceInfo (dev_id this) CL_DEVICE_PLATFORM 8 True,
                            clGetPlatformInfo pl 128, clReleaseDevice (dev_id this)]),
                  this\<lparr>dev_id := 0\<rparr>)
            else ((Inl (NativeApiError (status env (clReleaseDevice (dev_id this)))),
                   [clGetDeviceInfo (dev_id this) CL_DEVICE_PLATFORM 8 True,
                    clGetPlatformInfo pl 128, clReleaseDevice (dev_id this)]),
                  this))
      else ((Inr (), [clGetDeviceInfo (dev_id this) CL_DEVICE_PLATFORM 8 True,
                      clGetPlatformInfo pl 128]),
            this\<lparr>dev_id := 0\<rparr>))"
proof -
  have p: "platform env this
             = (Inr pl, [clGetDeviceInfo (dev_id this) CL_DEVICE_PLATFORM 8 True])"
    using assms(2) by (simp add: platform_eq platform_read_def)
  show ?thesis
    using assms(1) by (simp add: destroy_cases p supportsAtLeast1Point2_read [OF assms(3)])
qed

lemma filter_member: "filter P xs = ys \<Longrightarrow> c \<in> set xs \<Longrightarrow> P c \<Longrightarrow> c \<in> set ys"
  by auto

lemma destroy_Device_releases:
  "fst (fst (destroy_Device v12 env this)) \<noteq> Inl UninitializedRead \<Longrightarrow>
     filter is_release (snd (fst (destroy_Device v12 env this))) = []
     \<or> (filter is_release (snd (fst (destroy_Device v12 env this)))
           = [clReleaseDevice (dev_id this)] \<and> dev_id this \<noteq> 0)"
  by (auto simp: destroy_cases platform_eq supportsAtLeast1Point2_def is_release_def
      split: if_splits sum.splits bool.splits)

text \<open>
  Claim C4, as the code has it. Where OPENCL_V1_2 is defined, the owning platform is
  found and its version is read, the destructor of a non-empty handle on a platform that
  supports explicit reference counting asks for the owning platform with the identifier
  still in place, reads the platform version and issues one release of the identifier;
  when the release reports success the identifier is then cleared, and when it reports an
  error the NativeApiError of that status leaves the destructor and the identifier stays.
  An empty handle issues no call at all. Without OPENCL_V1_2, or on a platform whose
  version, once read, is below 1.2, no release is issued and the identifier is cleared.
  A destruction that does not read the uninitialised version buffer issues at most one
  release, of the identifier of its handle, and a completed destruction leaves the handle
  empty. Releases are not counted per identifier: two handles that hold the same
  identifier release it once each.
\<close>

theorem destroy_Device_releases_once:
  "(dev_id this \<noteq> 0 \<and> v12 \<and> platform_read env this pl \<and> version_read env pl
      \<and> counts_references env pl
     \<longrightarrow> (status env (clReleaseDevice (dev_id this)) = CL_SUCCESS
           \<longrightarrow> destroy_Device v12 env this
                 = ((Inr (), [clGetDeviceInfo (dev_id this) CL_DEVICE_PLATFORM 8 True,
                              clGetPlatformInfo pl 128,
                              clReleaseDevice (dev_id this)]),
                    this\<lparr>dev_id := 0\<rparr>))
         \<and> (status env (clReleaseDevice (dev_id this)) \<noteq> CL_SUCCESS
              \<longrightarrow> destroy_Device v12 env this
                    = ((Inl (NativeApiError (status env (clReleaseDevice (dev_id this)))),
                        [clGetDeviceInfo (dev_id this) CL_DEVICE_PLATFORM 8 True,
                         clGetPlatformInfo pl 128,
                         clReleaseDevice (dev_id this)]),
                       this)))
   \<and> (dev_id this = 0 \<longrightarrow> destroy_Device v12 env this = ((Inr (), []), this))
   \<and> (dev_id this \<noteq> 0 \<and> \<not> v12
        \<longrightarrow> destroy_Device v12 env this = ((Inr (), []), this\<lparr>dev_id := 0\<rparr>))
   \<and> (dev_id this \<noteq> 0 \<and> v12 \<and> platform_read env this pl \<and> version_read env pl
        \<and> \<not> counts_references env pl
        \<longrightarrow> destroy_Device v12 env this
              = ((Inr (), [clGetDeviceInfo (dev_id this) CL_DEVICE_PLATFORM 8 True,
                           clGetPlatformInfo pl 128]),
                 this\<lparr>dev_id := 0\<rparr>))
   \<and> (fst (fst (destroy_Device v12 env this)) \<noteq> Inl UninitializedRead
        \<longrightarrow> length (filter is_release (snd (fst (destroy_Device v12 env this)))) \<le> 1
            \<and> (\<forall>c \<in> set (snd (fst (destroy_Device v12 env this))).
                  is_release c \<longrightarrow> c = clReleaseDevice (dev_id this) \<and> dev_id this \<noteq> 0))
   \<and> (fst (fst (destroy_Device v12 env this)) = Inr ()
        \<longrightarrow> dev_id (snd (destroy_Device v12 env this)) = 0)
   \<and> (dev_id this \<noteq> 0 \<and> dev_id that = dev_id this \<and> v12 \<and> platform_read env this pl
        \<and> version_read env pl \<and> counts_references env pl
        \<and> status env (clReleaseDevice (dev_id this)) = CL_SUCCESS
        \<longrightarrow> filter is_release (destroy_each v12 env [this, that])
              = [clReleaseDevice (dev_id this), clReleaseDevice (dev_id this)])"
proof -
  have counted: "dev_id this \<noteq> 0 \<and> v12 \<and> platform_read env this pl \<and> version_read env pl
      \<and> counts_references env pl
     \<longrightarrow> (status env (clReleaseDevice (dev_id this)) = CL_SUCCESS
           \<longrightarrow> destroy_Device v12 env this
                 = ((Inr (), [clGetDeviceInfo (dev_id this) CL_DEVICE_PLATFORM 8 True,
                              clGetPlatformInfo pl 128,
                              clReleaseDevice (dev_id this)]),
                    this\<lparr>dev_id := 0\<rparr>))
         \<and> (status env (clReleaseDevice (dev_id this)) \<noteq> CL_SUCCESS
              \<longrightarrow> destroy_Device v12 env this
                    = ((Inl (NativeApiError (status env (clReleaseDevice (dev_id this)))),
                        [clGetDeviceInfo (dev_id this) CL_DEVICE_PLATFORM 8 True,
                         clGetPlatformInfo pl 128,
                         clReleaseDevice (dev_id this)]),
                       this))"
    using destroy_Device_read [of this env pl] by auto
  have empty: "dev_id this = 0 \<longrightarrow> destroy_Device v12 env this = ((Inr (), []), this)"
    by (simp add: destroy_cases)
  have off: "dev_id this \<noteq> 0 \<and> \<not> v12
        \<longrightarrow> destroy_Device v12 env this = ((Inr (), []), this\<lparr>dev_id := 0\<rparr>)"
    by (simp add: destroy_cases)
  have uncounted: "dev_id this \<noteq> 0 \<and> v12 \<and> platform_read env this pl \<and> version_read env pl
        \<and> \<not> counts_references env pl
        \<longrightarrow> destroy_Device v12 env this
              = ((Inr (), [clGetDeviceInfo (dev_id this) CL_DEVICE_PLATFORM 8 True,
                           clGetPlatformInfo pl 128]),
                 this\<lparr>dev_id := 0\<rparr>)"
    using destroy_Device_read [of this env pl] by auto
  have atmost: "fst (fst (destroy_Device v12 env this)) \<noteq> Inl UninitializedRead
        \<longrightarrow> length (filter is_release (snd (fst (destroy_Device v12 env this)))) \<le> 1
            \<and> (\<forall>c \<in> set (snd (fst (destroy_Device v12 env this))).
                  is_release c \<longrightarrow> c = clReleaseDevice (dev_id this) \<and> dev_id this \<noteq> 0)"
  proof
    assume "fst (fst (destroy_Device v12 env this)) \<noteq> Inl UninitializedRead"
    from destroy_Device_releases [OF this]
    have r: "filter is_release (snd (fst (destroy_Device v12 env this))) = []
       \<or> (filter is_release (snd (fst (destroy_Device v12 env this)))
             = [clReleaseDevice (dev_id this)] \<and> dev_id this \<noteq> 0)" .
    have "c = clReleaseDevice (dev_id this) \<and> dev_id this \<noteq> 0"
      if "c \<in> set (snd (fst (destroy_Device v12 env this)))" and "is_release c" for c
    proof -
      from r show ?thesis
      proof
        assume "filter is_release (snd (fst (destroy_Device v12 env this))) = []"
        from filter_member [of is_release _ "[]" c, OF this that] show ?thesis by simp
      next
        assume e: "filter is_release (snd (fst (destroy_Device v12 env this)))
             = [clReleaseDevice (dev_id this)] \<and> dev_id this \<noteq> 0"
        then have "filter is_release (snd (fst (destroy_Device v12 env this)))
             = [clReleaseDevice (dev_id this)]" by blast
        from filter_member [of is_release _ "[clReleaseDevice (dev_id this)]" c, OF this that]
        have "c \<in> set [clReleaseDevice (dev_id this)]" .
        with e show ?thesis by simp
      qed
    qed
    moreover from r
    have "length (filter is_release (snd (fst (destroy_Device v12 env this)))) \<le> 1"
      by auto
    ultimately show "length (filter is_release (snd (fst (destroy_Device v12 env this)))) \<le> 1
            \<and> (\<forall>c \<in> set (snd (fst (destroy_Device v12 env this))).
                  is_release c \<longrightarrow> c = clReleaseDevice (dev_id this) \<and> dev_id this \<noteq> 0)"
      by blast
  qed
  have cleared: "fst (fst (destroy_Device v12 env this)) = Inr ()
        \<longrightarrow> dev_id (snd (destroy_Device v12 env this)) = 0"
    using destroy_completed [of v12 env this] by blast
  have both: "dev_id this \<noteq> 0 \<and> dev_id that = dev_id this \<and> v12 \<and> platform_read env this pl
        \<and> version_read env pl \<and> counts_references env pl
        \<and> status env (clReleaseDevice (dev_id this)) = CL_SUCCESS
        \<longrightarrow> filter is_release (destroy_each v12 env [this, that])
              = [clReleaseDevice (dev_id this), clReleaseDevice (dev_id this)]"
  proof (intro impI, elim conjE)
    assume a: "dev_id this \<noteq> 0" "dev_id that = dev_id this" "v12" "platform_read env this pl"
      "version_read env pl" "counts_references env pl"
      "status env (clReleaseDevice (dev_id this)) = CL_SUCCESS"
    then have p: "platform_read env that pl" and n: "dev_id that \<noteq> 0"
      by (simp_all add: platform_read_def)
    from a destroy_Device_read [OF a(1) a(4) a(5)] destroy_Device_read [OF n p a(5)]
    show "filter is_release (destroy_each v12 env [this, that])
              = [clReleaseDevice (dev_id this), clReleaseDevice (dev_id this)]"
      by (simp add: is_release_def)
  qed
  from counted empty off uncounted atmost cleared both show ?thesis by blast
qed


lemma example_platform_read:
  "platform_read (example_native pv 3) \<lparr>dev_id = 7, dev_type = t\<rparr> 3"
  "platform_read (release_rejected (example_native pv 3)) \<lparr>dev_id = 7, dev_type = t\<rparr> 3"
  by (simp_all add: platform_read_def release_rejected_def example_native_def CL_SUCCESS_def)

lemma example_version_read:
  "version_read (example_native ''OpenCL 1.2 CUDA'' 3) 3"
  "version_read (release_rejected (example_native ''OpenCL 1.2 CUDA'' 3)) 3"
  "version_read (example_native ''OpenCL 1.1 Mesa'' 3) 3"
  by (simp_all add: version_read_def release_rejected_def example_native_def CL_SUCCESS_def)

lemma example_counts_references:
  "counts_references (example_native ''OpenCL 1.2 CUDA'' 3) 3"
  "counts_references (release_rejected (example_native ''OpenCL 1.2 CUDA'' 3)) 3"
  "\<not> counts_references (example_native ''OpenCL 1.1 Mesa'' 3) 3"
  by (simp_all add: counts_references_def release_rejected_def example_native_def
      supportsVersion_str_def scan_defs)

lemma example_release_status:
  "status (example_native ''OpenCL 1.2 CUDA'' 3) (clReleaseDevice (dev_id \<lparr>dev_id = 7, dev_type = t\<rparr>))
     = CL_SUCCESS"
  "status (release_rejected (example_native ''OpenCL 1.2 CUDA'' 3))
     (clReleaseDevice (dev_id \<lparr>dev_id = 7, dev_type = t\<rparr>)) \<noteq> CL_SUCCESS"
  "status (release_rejected (example_native ''OpenCL 1.2 CUDA'' 3)) (clReleaseDevice 7)
     = CL_OUT_OF_RESOURCES"
  by (simp_all add: release_rejected_def example_native_def CL_OUT_OF_RESOURCES_def
      CL_SUCCESS_def)

theorem destroy_Device_releases_once_witness:
  "platform_read (example_native ''OpenCL 1.2 CUDA'' 3) \<lparr>dev_id = 7, dev_type = type_GPU\<rparr> 3
   \<and> version_read (example_native ''OpenCL 1.2 CUDA'' 3) 3
   \<and> counts_references (example_native ''OpenCL 1.2 CUDA'' 3) 3
   \<and> destroy_Device True (example_native ''OpenCL 1.2 CUDA'' 3)
         \<lparr>dev_id = 7, dev_type = type_GPU\<rparr>
       = ((Inr (), [clGetDeviceInfo 7 CL_DEVICE_PLATFORM 8 True, clGetPlatformInfo 3 128,
                    clReleaseDevice 7]),
          \<lparr>dev_id = 0, dev_type = type_GPU\<rparr>)
   \<and> destroy_Device True (release_rejected (example_native ''OpenCL 1.2 CUDA'' 3))
         \<lparr>dev_id = 7, dev_type = type_GPU\<rparr>
       = ((Inl (NativeApiError CL_OUT_OF_RESOURCES),
           [clGetDeviceInfo 7 CL_DEVICE_PLATFORM 8 True, clGetPlatformInfo 3 128,
            clReleaseDevice 7]),
          \<lparr>dev_id = 7, dev_type = type_GPU\<rparr>)
   \<and> destroy_Device True (example_native ''OpenCL 1.2 CUDA'' 3) Device_default
       = ((Inr (), []), Device_default)
   \<and> destroy_Device False (example_native ''OpenCL 1.2 CUDA'' 3)
         \<lparr>dev_id = 7, dev_type = type_GPU\<rparr>
       = ((Inr (), []), \<lparr>dev_id = 0, dev_type = type_GPU\<rparr>)
   \<and> \<not> counts_references (example_native ''OpenCL 1.1 Mesa'' 3) 3
   \<and> destroy_Device True (example_native ''OpenCL 1.1 Mesa'' 3)
         \<lparr>dev_id = 7, dev_type = type_GPU\<rparr>
       = ((Inr (), [clGetDeviceInfo 7 CL_DEVICE_PLATFORM 8 True, clGetPlatformInfo 3 128]),
          \<lparr>dev_id = 0, dev_type = type_GPU\<rparr>)
   \<and> filter is_release
         (destroy_each True (example_native ''OpenCL 1.2 CUDA'' 3)
            [\<lparr>dev_id = 7, dev_type = type_GPU\<rparr>, \<lparr>dev_id = 7, dev_type = type_CPU\<rparr>])
       = [clReleaseDevice 7, clReleaseDevice 7]"
proof -
  let ?env = "example_native ''OpenCL 1.2 CUDA'' 3"
  let ?rej = "release_rejected ?env"
  let ?old = "example_native ''OpenCL 1.1 Mesa'' 3"
  let ?d = "\<lparr>dev_id = 7, dev_type = type_GPU\<rparr>"
  let ?d' = "\<lparr>dev_id = 7, dev_type = type_CPU\<rparr>"
  note p = example_platform_read and v = example_version_read
    and c = example_counts_references and r = example_release_status
  have n: "dev_id ?d \<noteq> 0" "dev_id ?d' = dev_id ?d" "dev_id Device_default = 0"
    by (simp_all add: Device_default_def)
  from destroy_Device_releases_once [of ?d True ?env 3 ?d'] n p v c r
  have "destroy_Device True ?env ?d
          = ((Inr (), [clGetDeviceInfo (dev_id ?d) CL_DEVICE_PLATFORM 8 True,
                       clGetPlatformInfo 3 128, clReleaseDevice (dev_id ?d)]),
             ?d\<lparr>dev_id := 0\<rparr>)"
    and "filter is_release (destroy_each True ?env [?d, ?d'])
          = [clReleaseDevice (dev_id ?d), clReleaseDevice (dev_id ?d)]"
    by blast+
  then have one: "destroy_Device True ?env ?d
       = ((Inr (), [clGetDeviceInfo 7 CL_DEVICE_PLATFORM 8 True, clGetPlatformInfo 3 128,
                    clReleaseDevice 7]),
          \<lparr>dev_id = 0, dev_type = type_GPU\<rparr>)"
    and both: "filter is_release (destroy_each True ?env [?d, ?d'])
       = [clReleaseDevice 7, clReleaseDevice 7]"
    by simp_all
  from destroy_Device_releases_once [of ?d True ?rej 3 ?d'] n p v c r
  have "destroy_Device True ?rej ?d
          = ((Inl (NativeApiError (status ?rej (clReleaseDevice (dev_id ?d)))),
              [clGetDeviceInfo (dev_id ?d) CL_DEVICE_PLATFORM 8 True,
               clGetPlatformInfo 3 128, clReleaseDevice (dev_id ?d)]),
             ?d)"
    by blast
  then have failed: "destroy_Device True ?rej ?d
       = ((Inl (NativeApiError CL_OUT_OF_RESOURCES),
           [clGetDeviceInfo 7 CL_DEVICE_PLATFORM 8 True, clGetPlatformInfo 3 128,
            clReleaseDevice 7]),
          \<lparr>dev_id = 7, dev_type = type_GPU\<rparr>)"
    by (simp add: r(3))
  from destroy_Device_releases_once [of Device_default True ?env 3 ?d'] n
  have empty: "destroy_Device True ?env Device_default = ((Inr (), []), Device_default)"
    by blast
  from destroy_Device_releases_once [of ?d False ?env 3 ?d'] n
  have "destroy_Device False ?env ?d = ((Inr (), []), ?d\<lparr>dev_id := 0\<rparr>)"
    by blast
  then have off:
    "destroy_Device False ?env ?d = ((Inr (), []), \<lparr>dev_id = 0, dev_type = type_GPU\<rparr>)"
    by simp
  from destroy_Device_releases_once [of ?d True ?old 3 ?d'] n p v c
  have "destroy_Device True ?old ?d
          = ((Inr (), [clGetDeviceInfo (dev_id ?d) CL_DEVICE_PLATFORM 8 True,
                       clGetPlatformInfo 3 128]),
             ?d\<lparr>dev_id := 0\<rparr>)"
    by blast
  then have uncounted: "destroy_Device True ?old ?d
       = ((Inr (), [clGetDeviceInfo 7 CL_DEVICE_PLATFORM 8 True, clGetPlatformInfo 3 128]),
          \<lparr>dev_id = 0, dev_type = type_GPU\<rparr>)"
    by simp
  from p(1) [of "''OpenCL 1.2 CUDA''" type_GPU] v(1) c(1) one failed empty off c(3) uncounted both
  show ?thesis by (intro conjI)
qed

text \<open>
  Claim C4 as stated fails. On a platform that supports explicit reference counting, a
  release that the runtime answers with an error is issued once and the identifier is not
  cleared; and two handles that hold the identifier 7, as two handles constructed from
  that raw identifier do, release it twice.
\<close>

theorem destroy_Device_counterexample:
  "counts_references (example_native ''OpenCL 1.2 CUDA'' 3) 3
   \<and> destroy_Device True (release_rejected (example_native ''OpenCL 1.2 CUDA'' 3))
         \<lparr>dev_id = 7, dev_type = type_GPU\<rparr>
       = ((Inl (NativeApiError CL_OUT_OF_RESOURCES),
           [clGetDeviceInfo 7 CL_DEVICE_PLATFORM 8 True, clGetPlatformInfo 3 128,
            clReleaseDevice 7]),
          \<lparr>dev_id = 7, dev_type = type_GPU\<rparr>)
   \<and> filter is_release
         (destroy_each True (example_native ''OpenCL 1.2 CUDA'' 3)
            [\<lparr>dev_id = 7, dev_type = type_GPU\<rparr>, \<lparr>dev_id = 7, dev_type = type_GPU\<rparr>])
       = [clReleaseDevice 7, clReleaseDevice 7]"
proof -
  let ?env = "example_native ''OpenCL 1.2 CUDA'' 3"
  let ?rej = "release_rejected ?env"
  let ?d = "\<lparr>dev_id = 7, dev_type = type_GPU\<rparr>"
  note p = example_platform_read and v = example_version_read
    and c = example_counts_references and r = example_release_status
  have n: "dev_id ?d \<noteq> 0" by simp
  have failed: "destroy_Device True ?rej ?d
       = ((Inl (NativeApiError CL_OUT_OF_RESOURCES),
           [clGetDeviceInfo 7 CL_DEVICE_PLATFORM 8 True, clGetPlatformInfo 3 128,
            clReleaseDevice 7]),
          ?d)"
    using r(2) [of type_GPU]
    by (simp add: destroy_Device_read [OF n p(2) v(2)] c(2) r(3))
  have once: "destroy_Device True ?env ?d
       = ((Inr (), [clGetDeviceInfo 7 CL_DEVICE_PLATFORM 8 True, clGetPlatformInfo 3 128,
                    clReleaseDevice 7]),
          \<lparr>dev_id = 0, dev_type = type_GPU\<rparr>)"
    using r(1) [of type_GPU]
    by (simp add: destroy_Device_read [OF n p(1) v(1)] c(1))
  have both: "filter is_release (destroy_each True ?env [?d, ?d])
       = [clReleaseDevice 7, clReleaseDevice 7]"
    by (simp add: once is_release_def)
  from c(1) failed both show ?thesis by (intro conjI)
qed

section \<open>The platform version read of the gate\<close>

text \<open>
  Claim C5 does not hold for the platform version: \<open>supportsAtLeast1Point2\<close> issues a single
  clGetPlatformInfo with a buffer of 128 bytes, whatever the length of the string, and
  does not look at its status. For a platform whose version string takes more than 128
  bytes the call fails and the scan reads the buffer uninitialised. (\<open>getDeviceInfo\<close> asks
  for the size first: see \<open>getDeviceInfo_eq\<close>.)
\<close>

theorem supportsAtLeast1Point2_fixed_buffer:
  "snd (supportsAtLeast1Point2 env pl) = [clGetPlatformInfo pl 128]
   \<and> supportsAtLeast1Point2 (example_native (''OpenCL 1.2 '' @ replicate 120 CHR ''x'') 3) 3
       = (Inl UninitializedRead, [clGetPlatformInfo 3 128])"
  by (simp add: supportsAtLeast1Point2_def example_native_def CL_SUCCESS_def CL_INVALID_VALUE_def)

section \<open>Identity\<close>

text \<open>
  Claim C9: two handles are equal iff their identifiers are; equality is reflexive and
  symmetric and does not look at the type of either handle; a handle equals a raw
  identifier iff it stores it; and each \<open>!=\<close> is the negation of its \<open>==\<close>.
\<close>

theorem equality_is_identifier_based:
  "eq_Device a b = (dev_id a = dev_id b)
   \<and> eq_Device a a
   \<and> eq_Device a b = eq_Device b a
   \<and> eq_Device (a\<lparr>dev_type := t\<rparr>) (b\<lparr>dev_type := u\<rparr>) = eq_Device a b
   \<and> ne_Device a b = (\<not> eq_Device a b)
   \<and> eq_id a i = (dev_id a = i)
   \<and> ne_id a i = (\<not> eq_id a i)"
  by (auto simp: eq_Device_def ne_Device_def eq_id_def ne_id_def id_of_def)

theorem equality_is_identifier_based_witness:
  "eq_Device \<lparr>dev_id = 7, dev_type = type_GPU\<rparr> \<lparr>dev_id = 7, dev_type = type_CPU\<rparr>
   \<and> ne_Device \<lparr>dev_id = 7, dev_type = type_GPU\<rparr> \<lparr>dev_id = 8, dev_type = type_GPU\<rparr>
   \<and> eq_id \<lparr>dev_id = 7, dev_type = type_GPU\<rparr> 7"
  using equality_is_identifier_based
      [of "\<lparr>dev_id = 7, dev_type = type_GPU\<rparr>" "\<lparr>dev_id = 7, dev_type = type_CPU\<rparr>"
          type_GPU type_GPU 7]
    equality_is_identifier_based
      [of "\<lparr>dev_id = 7, dev_type = type_GPU\<rparr>" "\<lparr>dev_id = 8, dev_type = type_GPU\<rparr>"
          type_GPU type_GPU 7]
  by simp

text \<open>
  Claim C10: \<open>setId\<close> stores the identifier and nothing else: the call issues no native
  call, cannot fail, and leaves the type of the handle as it was.
\<close>

theorem setId_changes_identifier_only:
  "setId this i = ((Inr (), []), this\<lparr>dev_id := i\<rparr>)
   \<and> dev_id (snd (setId this i)) = i
   \<and> dev_type (snd (setId this i)) = dev_type this
   \<and> type_of (snd (setId this i)) = type_of this
   \<and> snd (fst (setId this i)) = []"
  by (simp add: setId_def return_io_def type_of_def)

theorem setId_changes_identifier_only_witness:
  "setId \<lparr>dev_id = 7, dev_type = type_GPU\<rparr> 9 = ((Inr (), []), \<lparr>dev_id = 9, dev_type = type_GPU\<rparr>)"
  using setId_changes_identifier_only [of "\<lparr>dev_id = 7, dev_type = type_GPU\<rparr>" 9]
  by simp


section \<open>The extension scan\<close>

lemma split_sp_not_Nil: "split_sp s \<noteq> []"
  by (induction s) (auto split: list.splits)

lemma split_sp_no_space: "CHR '' '' \<notin> set t \<Longrightarrow> split_sp t = [t]"
  by (induction t) auto

lemma split_sp_space: "CHR '' '' \<notin> set t \<Longrightarrow> split_sp (t @ CHR '' '' # r) = t # split_sp r"
  by (induction t) auto

lemma tokens_no_space: "CHR '' '' \<notin> set t \<Longrightarrow> t \<noteq> [] \<Longrightarrow> tokens t = [t]"
proof -
  assume a: "CHR '' '' \<notin> set t" and b: "t \<noteq> []"
  then have "last t \<noteq> CHR '' ''" by (metis last_in_set)
  with a b show ?thesis by (simp add: tokens_def split_sp_no_space)
qed

lemma tokens_space: "CHR '' '' \<notin> set t \<Longrightarrow> tokens (t @ CHR '' '' # r) = t # tokens r"
  by (simp add: tokens_def split_sp_space split_sp_not_Nil)

lemma strcspn_terminated:
  "NUL \<notin> set r \<Longrightarrow> strcspn (r @ [NUL]) '' '' = length (takeWhile (\<lambda>c. c \<noteq> CHR '' '') r)"
  by (induction r) (auto simp: strcspn_def)

lemma strncmp_prefix:
  "NUL \<notin> set xs \<Longrightarrow> length ys = length xs \<Longrightarrow>
     (strncmp (xs @ a) (ys @ b) (length xs) = 0) = (xs = ys)"
proof (induction xs arbitrary: ys)
  case Nil
  then show ?case by simp
next
  case (Cons x xs)
  then obtain y ys' where ys: "ys = y # ys'" by (cases ys) auto
  with Cons.prems have len: "length ys' = length xs" and nn: "NUL \<notin> set xs" and x: "x \<noteq> NUL"
    by auto
  have "int (of_char x) - int (of_char y) = 0 \<longleftrightarrow> x = y"
    by (metis (no_types) eq_iff_diff_eq_0 of_nat_eq_iff of_char_eq_iff)
  with Cons.IH [OF nn len] x show ?case by (auto simp: ys Let_def)
qed


lemma strlen_terminated: "strlen (ext @ [NUL]) = length (c_str ext)"
  by (induction ext) (simp_all add: strlen_def c_str_def)

lemma c_str_prefix: "\<exists>b. ext @ [NUL] = c_str ext @ b"
proof -
  have "ext = c_str ext @ dropWhile (\<lambda>c. c \<noteq> NUL) ext"
    by (simp add: c_str_def)
  then have "ext @ [NUL] = c_str ext @ (dropWhile (\<lambda>c. c \<noteq> NUL) ext @ [NUL])"
    by (metis append.assoc)
  then show ?thesis ..
qed

lemma loop_step:
  assumes nul: "NUL \<notin> set s" and p: "p < length s"
  shows "supportsExtension_loop (s @ [NUL]) (ext @ [NUL]) p =
           (if takeWhile (\<lambda>c. c \<noteq> CHR '' '') (drop p s) = c_str ext then Inr True
            else supportsExtension_loop (s @ [NUL]) (ext @ [NUL])
                   (p + Suc (length (takeWhile (\<lambda>c. c \<noteq> CHR '' '') (drop p s)))))"
proof -
  let ?r = "drop p s"
  let ?tok = "takeWhile (\<lambda>c. c \<noteq> CHR '' '') ?r"
  have nr: "NUL \<notin> set ?r" using nul by (meson in_set_dropD)
  have dr: "drop p (s @ [NUL]) = ?r @ [NUL]" using p by simp
  have n: "strcspn (drop p (s @ [NUL])) '' '' = length ?tok"
    unfolding dr by (rule strcspn_terminated [OF nr])
  have at: "(s @ [NUL]) ! p \<noteq> NUL"
    using p nul by (metis nth_append nth_mem)
  obtain b where extb: "ext @ [NUL] = c_str ext @ b" using c_str_prefix by blast
  have rt: "?r @ [NUL] = ?tok @ (dropWhile (\<lambda>c. c \<noteq> CHR '' '') ?r @ [NUL])" by simp
  have nt: "NUL \<notin> set ?tok" using nr by (meson set_takeWhileD)
  have cmp: "(strlen (ext @ [NUL]) = length ?tok
              \<and> strncmp (drop p (s @ [NUL])) (ext @ [NUL]) (length ?tok) = 0) = (?tok = c_str ext)"
  proof (cases "length (c_str ext) = length ?tok")
    case True
    have "(strncmp (?tok @ (dropWhile (\<lambda>c. c \<noteq> CHR '' '') ?r @ [NUL])) (c_str ext @ b) (length ?tok) = 0)
            = (?tok = c_str ext)"
      by (rule strncmp_prefix [OF nt True])
    then show ?thesis using True
      by (simp only: dr extb [symmetric] strlen_terminated) (metis rt extb)
  next
    case False
    then show ?thesis by (auto simp: strlen_terminated)
  qed
  have "\<not> length (s @ [NUL]) \<le> p" using p by simp
  then show ?thesis
    using at n cmp
    by (subst supportsExtension_loop.simps) (simp add: Let_def)
qed

lemma loop_at_end: "NUL \<notin> set s \<Longrightarrow> supportsExtension_loop (s @ [NUL]) e (length s) = Inr False"
  by (subst supportsExtension_loop.simps) simp

lemma loop_past_end:
  "supportsExtension_loop (s @ [NUL]) e (Suc (length s)) = Inl (OutOfBoundsRead (Suc (length s)))"
  by (subst supportsExtension_loop.simps) simp


lemma split_at_space:
  assumes "CHR '' '' \<in> set r"
  shows "\<exists>r'. r = takeWhile (\<lambda>c. c \<noteq> CHR '' '') r @ CHR '' '' # r'"
proof -
  let ?d = "dropWhile (\<lambda>c. c \<noteq> CHR '' '') r"
  have "?d \<noteq> []" using assms by (simp add: dropWhile_eq_Nil_conv)
  then obtain c r' where d: "?d = c # r'" by (cases ?d) auto
  have "\<not> (hd ?d \<noteq> CHR '' '')" using \<open>?d \<noteq> []\<close> by (rule hd_dropWhile)
  with d have "c = CHR '' ''" by simp
  with d have "r = takeWhile (\<lambda>c. c \<noteq> CHR '' '') r @ CHR '' '' # r'"
    using takeWhile_dropWhile_id [of "\<lambda>c. c \<noteq> CHR '' ''" r] by simp
  then show ?thesis ..
qed

lemma loop_char:
  assumes nul: "NUL \<notin> set s"
  shows "p \<le> length s \<Longrightarrow>
         supportsExtension_loop (s @ [NUL]) (ext @ [NUL]) p =
           (if c_str ext \<in> set (tokens (drop p s)) then Inr True
            else if drop p s = [] \<or> last (drop p s) = CHR '' '' then Inr False
            else Inl (OutOfBoundsRead (Suc (length s))))"
proof (induction "length s - p" arbitrary: p rule: less_induct)
  case less
  define r where "r = drop p s"
  define tok where "tok = takeWhile (\<lambda>c. c \<noteq> CHR '' '') r"
  show ?case
  proof (cases "p = length s")
    case True
    then show ?thesis using loop_at_end [OF nul] by (simp add: tokens_def)
  next
    case False
    with less.prems have p: "p < length s" by simp
    then have rne: "r \<noteq> []" by (simp add: r_def)
    have step: "supportsExtension_loop (s @ [NUL]) (ext @ [NUL]) p =
           (if tok = c_str ext then Inr True
            else supportsExtension_loop (s @ [NUL]) (ext @ [NUL]) (p + Suc (length tok)))"
      unfolding tok_def r_def by (rule loop_step [OF nul p])
    have tokns: "CHR '' '' \<notin> set tok" unfolding tok_def by (auto dest: set_takeWhileD)
    have lr: "length r = length s - p" by (simp add: r_def)
    show ?thesis
    proof (cases "CHR '' '' \<in> set r")
      case False
      then have tok: "tok = r" unfolding tok_def by (auto simp: takeWhile_eq_all_conv)
      have pe: "p + Suc (length tok) = Suc (length s)" using p lr by (simp add: tok)
      have tk: "tokens r = [r]" using False rne by (rule tokens_no_space)
      have lst: "last r \<noteq> CHR '' ''" using False rne by (metis last_in_set)
      have "supportsExtension_loop (s @ [NUL]) (ext @ [NUL]) p =
              (if r = c_str ext then Inr True else Inl (OutOfBoundsRead (Suc (length s))))"
        unfolding step pe loop_past_end by (simp only: tok)
      also have "\<dots> = (if c_str ext \<in> set (tokens r) then Inr True
            else if r = [] \<or> last r = CHR '' '' then Inr False
            else Inl (OutOfBoundsRead (Suc (length s))))"
        using tk lst rne by auto
      finally show ?thesis unfolding r_def .
    next
      case True
      from split_at_space [OF this] obtain r' where split: "r = tok @ CHR '' '' # r'"
        unfolding tok_def by blast
      have len: "length r = length tok + Suc (length r')"
        using arg_cong [OF split, of length] by simp
      define p' where "p' = p + Suc (length tok)"
      have p': "p' \<le> length s" using len lr p by (simp add: p'_def)
      have dr': "drop p' s = r'"
      proof -
        have "drop p' s = drop (Suc (length tok)) r"
          by (simp add: p'_def r_def add.commute)
        also have "\<dots> = drop (Suc (length tok)) (tok @ CHR '' '' # r')"
          using split by simp
        also have "\<dots> = r'" by simp
        finally show ?thesis .
      qed
      have "length s - p' < length s - p" using p by (simp add: p'_def)
      from less.hyps [OF this p'] have IH:
        "supportsExtension_loop (s @ [NUL]) (ext @ [NUL]) p' =
           (if c_str ext \<in> set (tokens r') then Inr True
            else if r' = [] \<or> last r' = CHR '' '' then Inr False
            else Inl (OutOfBoundsRead (Suc (length s))))"
        by (simp only: dr')
      have tk: "tokens r = tok # tokens r'"
        using tokens_space [OF tokns, of r'] split by simp
      have lst: "(last r = CHR '' '') = (r' = [] \<or> last r' = CHR '' '')"
        using arg_cong [OF split, of last] by simp
      have "supportsExtension_loop (s @ [NUL]) (ext @ [NUL]) p =
           (if c_str ext \<in> set (tokens r) then Inr True
            else if r = [] \<or> last r = CHR '' '' then Inr False
            else Inl (OutOfBoundsRead (Suc (length s))))"
        unfolding step p'_def [symmetric] IH tk using lst rne by auto
      then show ?thesis unfolding r_def .
    qed
  qed
qed

lemma supportsExtension_static_eq:
  assumes "NUL \<notin> set s"
  shows "supportsExtension_static s ext =
           (if c_str ext \<in> set (tokens s) then Inr True
            else if s = [] \<or> last s = CHR '' '' then Inr False
            else Inl (OutOfBoundsRead (Suc (length s))))"
  using loop_char [OF assms, of 0 ext] by (simp add: supportsExtension_static_def)

text \<open>
  Claim C3 fails on the code by the slip of the scan: after a token that does not match,
  \<open>p += ++n\<close> steps over the character that ended the token, and when that character is
  the terminator the loop condition reads one character past the storage of the string.
  For the extensions \<open>"cl_khr_fp64 cl_khr_gl_sharing"\<close> the query \<open>"cl_khr_fp"\<close> does not
  yield false: no token matches, the string has 29 characters and its terminator is at
  offset 29, and the scan reads offset 30. The same holds for the stored token
  \<open>"cl_khr_fp64x"\<close> and the query \<open>"cl_khr_fp64"\<close>, and for \<open>doubleSupport\<close> on a device
  that has no such extension.
\<close>

theorem supportsExtension_no_match_reads_past_end:
  "supportsExtension_static ''cl_khr_fp64 cl_khr_gl_sharing'' ''cl_khr_fp''
     = Inl (OutOfBoundsRead 30)
   \<and> supportsExtension_static ''cl_khr_fp64x'' ''cl_khr_fp64'' = Inl (OutOfBoundsRead 13)
   \<and> supportsExtension (example_native ''OpenCL 1.2 CUDA'' 3) \<lparr>dev_id = 7, dev_type = type_GPU\<rparr>
        ''cl_khr_fp''
       = (Inl (OutOfBoundsRead 30),
          [clGetDeviceInfo 7 CL_DEVICE_EXTENSIONS 0 False,
           clGetDeviceInfo 7 CL_DEVICE_EXTENSIONS 30 True])
   \<and> supportsExtension_static ''cl_khr_fp64 cl_khr_gl_sharing'' ''cl_khr_fp64'' = Inr True
   \<and> supportsExtension_static ''cl_khr_fp64 cl_khr_gl_sharing'' ''cl_khr_gl_sharing'' = Inr True
   \<and> doubleSupport env this = supportsExtension env this ''cl_khr_fp64''"
proof -
  have a: "supportsExtension_static ''cl_khr_fp64 cl_khr_gl_sharing'' ''cl_khr_fp''
             = Inl (OutOfBoundsRead 30)"
    by (simp add: supportsExtension_static_def supportsExtension_loop.simps strcspn_def
        strlen_def c_str_def NUL_def)
  have b: "supportsExtension_static ''cl_khr_fp64x'' ''cl_khr_fp64'' = Inl (OutOfBoundsRead 13)"
    by (simp add: supportsExtension_static_def supportsExtension_loop.simps strcspn_def
        strlen_def c_str_def NUL_def)
  have e: "extensions (example_native ''OpenCL 1.2 CUDA'' 3) \<lparr>dev_id = 7, dev_type = type_GPU\<rparr>
             = (Inr ''cl_khr_fp64 cl_khr_gl_sharing'',
                [clGetDeviceInfo 7 CL_DEVICE_EXTENSIONS 0 False,
                 clGetDeviceInfo 7 CL_DEVICE_EXTENSIONS 30 True])"
    by (simp add: extensions_def id_of_def getDeviceInfo_eq example_native_def c_str_def NUL_def)
  have c: "supportsExtension (example_native ''OpenCL 1.2 CUDA'' 3)
             \<lparr>dev_id = 7, dev_type = type_GPU\<rparr> ''cl_khr_fp''
           = (Inl (OutOfBoundsRead 30),
              [clGetDeviceInfo 7 CL_DEVICE_EXTENSIONS 0 False,
               clGetDeviceInfo 7 CL_DEVICE_EXTENSIONS 30 True])"
    unfolding supportsExtension_def e by (simp add: bind_io_def a)
  have d: "supportsExtension_static ''cl_khr_fp64 cl_khr_gl_sharing'' ''cl_khr_fp64'' = Inr True"
    by (simp add: supportsExtension_static_def supportsExtension_loop.simps strcspn_def
        strlen_def c_str_def NUL_def Let_def)
  have f: "supportsExtension_static ''cl_khr_fp64 cl_khr_gl_sharing'' ''cl_khr_gl_sharing''
             = Inr True"
    by (simp add: supportsExtension_static_def supportsExtension_loop.simps strcspn_def
        strlen_def c_str_def NUL_def Let_def)
  have g: "doubleSupport env this = supportsExtension env this ''cl_khr_fp64''"
    by (simp add: doubleSupport_def)
  from a b c d f g show ?thesis by blast
qed

text \<open>
  Claim C8, as the code has it. For an extensions string without zero bytes (and
  \<open>extensions\<close> returns no other), not empty, not ending with a space, in which no token
  equals the queried extension, the scan examines the last token, moves the pointer one
  position past the terminator (offset \<open>length s + 1\<close>, the terminator being at offset
  \<open>length s\<close>, the last of the storage) and the loop condition reads there. The scan stays
  within bounds iff the string is empty, ends with a space, or has a token that equals
  the extension; it then answers whether a token matches.
\<close>

theorem supportsExtension_scan_bounds:
  "(NUL \<notin> set s \<and> s \<noteq> [] \<and> last s \<noteq> CHR '' '' \<and> c_str ext \<notin> set (tokens s)
      \<longrightarrow> supportsExtension_static s ext = Inl (OutOfBoundsRead (length s + 1)))
   \<and> (NUL \<notin> set s
        \<longrightarrow> (\<exists>b. supportsExtension_static s ext = Inr b)
              = (s = [] \<or> last s = CHR '' '' \<or> c_str ext \<in> set (tokens s)))
   \<and> (NUL \<notin> set s \<and> (s = [] \<or> last s = CHR '' '' \<or> c_str ext \<in> set (tokens s))
        \<longrightarrow> supportsExtension_static s ext = Inr (c_str ext \<in> set (tokens s)))
   \<and> length (s @ [NUL]) \<le> length s + 1
   \<and> (fst (extensions env this) = Inr s \<longrightarrow> NUL \<notin> set s)"
proof -
  have scan: "NUL \<notin> set s \<longrightarrow>
     supportsExtension_static s ext =
       (if c_str ext \<in> set (tokens s) then Inr True
        else if s = [] \<or> last s = CHR '' '' then Inr False
        else Inl (OutOfBoundsRead (Suc (length s))))"
    using supportsExtension_static_eq [of s ext] by blast
  have ext: "fst (extensions env this) = Inr s \<longrightarrow> NUL \<notin> set s"
    by (auto simp: extensions_def getDeviceInfo_eq c_str_def split: if_splits
        dest: set_takeWhileD)
  from scan ext show ?thesis by auto
qed

theorem supportsExtension_scan_bounds_witness:
  "NUL \<notin> set ''cl_khr_fp64''
   \<and> last ''cl_khr_fp64'' \<noteq> CHR '' ''
   \<and> c_str ''cl_khr_fp'' \<notin> set (tokens ''cl_khr_fp64'')
   \<and> supportsExtension_static ''cl_khr_fp64'' ''cl_khr_fp'' = Inl (OutOfBoundsRead 12)
   \<and> last ''cl_khr_fp64 '' = CHR '' ''
   \<and> supportsExtension_static ''cl_khr_fp64 '' ''cl_khr_fp'' = Inr False
   \<and> fst (extensions (example_native ''OpenCL 1.2 CUDA'' 3) \<lparr>dev_id = 7, dev_type = type_GPU\<rparr>)
       = Inr ''cl_khr_fp64 cl_khr_gl_sharing''
   \<and> NUL \<notin> set ''cl_khr_fp64 cl_khr_gl_sharing''"
proof -
  let ?env = "example_native ''OpenCL 1.2 CUDA'' 3"
  let ?d = "\<lparr>dev_id = 7, dev_type = type_GPU\<rparr>"
  have n1: "NUL \<notin> set ''cl_khr_fp64''" and n2: "NUL \<notin> set ''cl_khr_fp64 ''"
    by (simp_all add: NUL_def)
  have t1: "tokens ''cl_khr_fp64'' = [''cl_khr_fp64'']"
    and t2: "tokens ''cl_khr_fp64 '' = [''cl_khr_fp64'']"
    by (simp_all add: tokens_def)
  have c: "c_str ''cl_khr_fp'' = ''cl_khr_fp''"
    by (simp add: c_str_def NUL_def)
  have e: "fst (extensions ?env ?d) = Inr ''cl_khr_fp64 cl_khr_gl_sharing''"
    by (simp add: extensions_def id_of_def getDeviceInfo_eq example_native_def c_str_def NUL_def)
  from supportsExtension_scan_bounds [of "''cl_khr_fp64''" "''cl_khr_fp''"]
    supportsExtension_scan_bounds [of "''cl_khr_fp64 ''" "''cl_khr_fp''"]
    supportsExtension_scan_bounds [of "''cl_khr_fp64 cl_khr_gl_sharing''" "''cl_khr_fp''" ?env ?d]
    n1 n2 t1 t2 c e
  show ?thesis by simp
qed

text \<open>
  Claim C8 as stated fails where an earlier token matches: \<open>"a b"\<close> is not empty, does not
  end with a space, and its last token \<open>"b"\<close> is not the queried \<open>"a"\<close>; the scan returns
  true at the first token and reads nothing out of bounds.
\<close>

theorem supportsExtension_scan_bounds_counterexample:
  "''a b'' \<noteq> [] \<and> last ''a b'' \<noteq> CHR '' '' \<and> last (tokens ''a b'') \<noteq> ''a''
   \<and> supportsExtension_static ''a b'' ''a'' = Inr True"
  by (simp add: tokens_def supportsExtension_static_def supportsExtension_loop.simps strcspn_def
      strlen_def c_str_def NUL_def Let_def)

end
